theory Spec2Isabelle
  imports Complex_Main
begin

section \<open>Text, numbers and the Unicode tables\<close>

text \<open>
  The interpreter of \<^verbatim>\<open>src/nlp_processor.py\<close> works on Python \<^verbatim>\<open>str\<close> values: sequences
  of Unicode code points. A command text is therefore a list of code points; the
  keywords of the source are written by their code points (U+753B is the verb "draw",
  and so on, in the order of the source). The ASCII tags the program uses internally
  (\<^verbatim>\<open>"draw"\<close>, \<^verbatim>\<open>"line"\<close>, \<^verbatim>\<open>"draw_line"\<close>, ...) are HOL strings.
\<close>

type_synonym ustring = "nat list"

definition ascii :: "string \<Rightarrow> ustring" where
  "ascii s = map of_char s"

text \<open>\<^verbatim>\<open>needle in hay\<close> for two \<^verbatim>\<open>str\<close> values: \<open>needle\<close> occurs as a contiguous run.\<close>

fun starts_with :: "ustring \<Rightarrow> ustring \<Rightarrow> bool" where
  "starts_with [] hay = True"
| "starts_with (c # cs) [] = False"
| "starts_with (c # cs) (d # ds) = (c = d \<and> starts_with cs ds)"

fun contains :: "ustring \<Rightarrow> ustring \<Rightarrow> bool" where
  "contains needle [] = (needle = [])"
| "contains needle (d # ds) = (starts_with needle (d # ds) \<or> contains needle ds)"

text \<open>
  \<^verbatim>\<open>str.lower\<close>, \<^verbatim>\<open>str.upper\<close>, \<^verbatim>\<open>str.strip\<close>, \<^verbatim>\<open>int\<close>, \<^verbatim>\<open>float\<close> and the classes
  \<^verbatim>\<open>\d\<close>, \<^verbatim>\<open>\s\<close>, \<^verbatim>\<open>\w\<close> of the \<^verbatim>\<open>re\<close> module consult the Unicode character database of
  the interpreter. The database is not part of the repository, so it is a parameter
  \<open>U\<close> of every function that depends on it:
  \<^item> \<open>is_decimal\<close>, \<open>decimal_value\<close>: the decimal digits (\<^verbatim>\<open>\d\<close>) and their values;
  \<^item> \<open>is_space\<close>: white space (\<^verbatim>\<open>\s\<close>, \<^verbatim>\<open>str.strip\<close>);
  \<^item> \<open>is_alnum\<close>: letters and digits (\<^verbatim>\<open>\w\<close> is these and the underscore);
  \<^item> \<open>to_lower\<close>: the simple lower-case mapping of one code point, which
    \<^verbatim>\<open>re.IGNORECASE\<close> applies to the text;
  \<^item> \<open>str_lower\<close>, \<open>str_upper\<close>: \<^verbatim>\<open>str.lower\<close> and \<^verbatim>\<open>str.upper\<close> (the full, context
    dependent mappings);
  \<^item> \<open>max_str_digits\<close>: the limit on the digits \<^verbatim>\<open>int\<close> accepts (4300 by default since
    Python 3.11, none before).
\<close>

record ucd =
  is_decimal :: "nat \<Rightarrow> bool"
  decimal_value :: "nat \<Rightarrow> nat"
  is_space :: "nat \<Rightarrow> bool"
  is_alnum :: "nat \<Rightarrow> bool"
  to_lower :: "nat \<Rightarrow> nat"
  str_lower :: "ustring \<Rightarrow> ustring"
  str_upper :: "ustring \<Rightarrow> ustring"
  max_str_digits :: "nat option"

definition is_word :: "ucd \<Rightarrow> nat \<Rightarrow> bool" where
  "is_word U c = (is_alnum U c \<or> c = 0x5F)"

definition strip :: "ucd \<Rightarrow> ustring \<Rightarrow> ustring" where
  "strip U s = rev (dropWhile (is_space U) (rev (dropWhile (is_space U) s)))"

text \<open>
  The database restricted to ASCII and to the CJK ideographs U+4E00..U+9FFF, where it
  is known in full: the digits 0-9, the ASCII blanks, the ASCII letters with their
  case mapping, and the ideographs as caseless letters. Concrete commands made of such
  code points are evaluated with it.
\<close>

definition ascii_lower :: "nat \<Rightarrow> nat" where
  "ascii_lower c = (if 0x41 \<le> c \<and> c \<le> 0x5A then c + 0x20 else c)"

definition ascii_upper :: "nat \<Rightarrow> nat" where
  "ascii_upper c = (if 0x61 \<le> c \<and> c \<le> 0x7A then c - 0x20 else c)"

definition ucd_cjk :: ucd where
  "ucd_cjk =
     \<lparr> is_decimal = (\<lambda>c. 0x30 \<le> c \<and> c \<le> 0x39),
       decimal_value = (\<lambda>c. c - 0x30),
       is_space = (\<lambda>c. c = 0x20 \<or> (0x09 \<le> c \<and> c \<le> 0x0D) \<or> (0x1C \<le> c \<and> c \<le> 0x1F)),
       is_alnum = (\<lambda>c. (0x30 \<le> c \<and> c \<le> 0x39) \<or> (0x41 \<le> c \<and> c \<le> 0x5A)
                        \<or> (0x61 \<le> c \<and> c \<le> 0x7A) \<or> (0x4E00 \<le> c \<and> c \<le> 0x9FFF)),
       to_lower = ascii_lower,
       str_lower = map ascii_lower,
       str_upper = map ascii_upper,
       max_str_digits = Some 4300 \<rparr>"

text \<open>
  What the theorems below need of the database: the minus sign and the full stop are
  not decimal digits (true of Unicode).
\<close>

definition ucd_signs :: "ucd \<Rightarrow> bool" where
  "ucd_signs U = (\<not> is_decimal U 0x2D \<and> \<not> is_decimal U 0x2E)"

subsection \<open>Numbers\<close>

text \<open>
  A Python number (\<^verbatim>\<open>int\<close> or \<^verbatim>\<open>float\<close>) is modelled by its exact rational value; the
  rounding of \<^verbatim>\<open>float\<close> to binary64 is not modelled. Exceptions are values.
\<close>

datatype py_error = AttributeError | TypeError | ValueError

definition digits_value :: "ucd \<Rightarrow> ustring \<Rightarrow> nat" where
  "digits_value U ds = foldl (\<lambda>a d. 10 * a + decimal_value U d) 0 ds"

text \<open>
  \<^verbatim>\<open>float(s)\<close> on the literals the patterns of the source capture: an optional minus
  sign, one or more decimal digits, and optionally a full stop followed by decimal
  digits. \<open>None\<close> is the \<^verbatim>\<open>ValueError\<close> of \<^verbatim>\<open>float\<close>. (\<^verbatim>\<open>float\<close> accepts further
  notations, such as exponents, that no pattern of the source can capture; the
  theorems below show that every call meets the first case.)
\<close>

definition py_float :: "ucd \<Rightarrow> ustring \<Rightarrow> rat option" where
  "py_float U s =
     (let neg = (s \<noteq> [] \<and> hd s = 0x2D);
          body = (if neg then tl s else s);
          ip = takeWhile (is_decimal U) body;
          rest = dropWhile (is_decimal U) body;
          fp = (case rest of [] \<Rightarrow> Some [] | c # cs \<Rightarrow> if c = 0x2E then Some cs else None)
      in if ip = [] then None
         else (case fp of
                 None \<Rightarrow> None
               | Some fr \<Rightarrow>
                   if \<not> list_all (is_decimal U) fr then None
                   else let v = of_nat (digits_value U ip)
                                + of_nat (digits_value U fr) / 10 ^ length fr
                        in Some (if neg then - v else v)))"

text \<open>
  \<^verbatim>\<open>int(s)\<close>: blanks around, an optional sign, decimal digits in groups separated by
  single underscores. \<open>None\<close> is the \<^verbatim>\<open>ValueError\<close>.
\<close>

fun digit_groups :: "ucd \<Rightarrow> ustring \<Rightarrow> ustring option" where
  "digit_groups U [] = None"
| "digit_groups U (c # cs) =
     (if \<not> is_decimal U c then None
      else (case cs of
              [] \<Rightarrow> Some [c]
            | d # ds \<Rightarrow>
                if d = 0x5F then map_option ((#) c) (digit_groups U ds)
                else map_option ((#) c) (digit_groups U cs)))"

definition py_int :: "ucd \<Rightarrow> ustring \<Rightarrow> int option" where
  "py_int U s =
     (let t = strip U s;
          neg = (t \<noteq> [] \<and> hd t = 0x2D);
          body = (if t \<noteq> [] \<and> (hd t = 0x2D \<or> hd t = 0x2B) then tl t else t)
      in case digit_groups U body of
           None \<Rightarrow> None
         | Some ds \<Rightarrow>
             if (case max_str_digits U of None \<Rightarrow> False | Some k \<Rightarrow> k < length ds)
             then None
             else Some (if neg then - int (digits_value U ds) else int (digits_value U ds)))"

section \<open>Regular expressions\<close>

text \<open>
  The patterns of the source use literals, character classes, alternation, optional
  parts, greedy and lazy repetition of one character class, and capturing groups. The
  \<^verbatim>\<open>re\<close> module matches by backtracking: the alternatives are tried in a fixed order
  (left alternative first, a greedy repetition longest first, a lazy one shortest
  first) and the first complete match is the result. \<open>rm r (s, g)\<close> lists, in that
  order, every way \<open>r\<close> can match at the start of \<open>s\<close>: the text left over and the
  groups captured so far. The head of the list is the match Python finds.
\<close>

datatype re =
    Eps
  | Chr "nat \<Rightarrow> bool"
  | Seq re re
  | Alt re re
  | Opt re
  | Star "nat \<Rightarrow> bool"
  | Plus "nat \<Rightarrow> bool"
  | LazyStar "nat \<Rightarrow> bool"
  | Grp nat re

type_synonym caps = "nat \<rightharpoonup> ustring"

text \<open>
  The texts a repetition of one character class can leave over, after the longest run
  first and after the empty run last.
\<close>

fun star_rests :: "(nat \<Rightarrow> bool) \<Rightarrow> ustring \<Rightarrow> ustring list" where
  "star_rests p [] = [[]]"
| "star_rests p (c # cs) = (if p c then star_rests p cs @ [c # cs] else [c # cs])"

fun rm :: "re \<Rightarrow> ustring \<times> caps \<Rightarrow> (ustring \<times> caps) list" where
  "rm Eps x = [x]"
| "rm (Chr p) (s, g) = (case s of [] \<Rightarrow> [] | c # cs \<Rightarrow> if p c then [(cs, g)] else [])"
| "rm (Seq a b) x = concat (map (rm b) (rm a x))"
| "rm (Alt a b) x = rm a x @ rm b x"
| "rm (Opt a) x = rm a x @ [x]"
| "rm (Star p) (s, g) = map (\<lambda>s'. (s', g)) (star_rests p s)"
| "rm (Plus p) (s, g) = map (\<lambda>s'. (s', g)) (butlast (star_rests p s))"
| "rm (LazyStar p) (s, g) = map (\<lambda>s'. (s', g)) (rev (star_rests p s))"
| "rm (Grp n a) (s, g) =
     map (\<lambda>(s', g'). (s', g'(n \<mapsto> take (length s - length s') s))) (rm a (s, g))"

definition seq :: "re list \<Rightarrow> re" where
  "seq rs = foldr Seq rs Eps"

definition alts :: "re list \<Rightarrow> re" where
  "alts rs = foldr Alt (butlast rs) (last rs)"

definition chr :: "nat \<Rightarrow> re" where
  "chr c = Chr (\<lambda>x. x = c)"

definition one_of :: "ustring \<Rightarrow> re" where
  "one_of cs = Chr (\<lambda>x. x \<in> set cs)"

definition lit :: "ustring \<Rightarrow> re" where
  "lit s = seq (map chr s)"

text \<open>
  Under \<^verbatim>\<open>re.IGNORECASE\<close> a cased literal \<open>c\<close> of the pattern (all of them are lower-case
  ASCII letters in the source) matches a code point whose simple lower-case mapping is
  \<open>c\<close> or one of the code points the \<^verbatim>\<open>re\<close> compiler lists as equivalent to \<open>c\<close>: the
  dotless i (U+0131) for \<^verbatim>\<open>i\<close>, the long s (U+017F) for \<^verbatim>\<open>s\<close>. Caseless literals and
  the classes \<^verbatim>\<open>\d\<close>, \<^verbatim>\<open>\w\<close>, \<^verbatim>\<open>[^\d]\<close>, \<^verbatim>\<open>[^\w]\<close> match as without the flag.
\<close>

definition chr_ci :: "ucd \<Rightarrow> nat \<Rightarrow> re" where
  "chr_ci U c =
     (if 0x61 \<le> c \<and> c \<le> 0x7A
      then Chr (\<lambda>x. to_lower U x \<in> set (c # (if c = 0x69 then [0x131] else if c = 0x73 then [0x17F] else [])))
      else chr c)"

definition lit_ci :: "ucd \<Rightarrow> ustring \<Rightarrow> re" where
  "lit_ci U s = seq (map (chr_ci U) s)"

text \<open>
  \<^verbatim>\<open>re.search\<close>: the match at the leftmost position that has one. The result is the
  number of code points before the match, the text after it, and the groups.
\<close>

fun search_at :: "re \<Rightarrow> ustring \<Rightarrow> (nat \<times> ustring \<times> caps) option" where
  "search_at r [] =
     (case rm r ([], Map.empty) of [] \<Rightarrow> None | (s', g) # _ \<Rightarrow> Some (0, s', g))"
| "search_at r (c # cs) =
     (case rm r (c # cs, Map.empty) of
        (s', g) # _ \<Rightarrow> Some (0, s', g)
      | [] \<Rightarrow> map_option (\<lambda>(n, x). (Suc n, x)) (search_at r cs))"

definition search :: "re \<Rightarrow> ustring \<Rightarrow> caps option" where
  "search r s = map_option (\<lambda>(n, s', g). g) (search_at r s)"

text \<open>The text left over by a match is a suffix of the text matched against.\<close>

lemma star_rests_suffix: "s' \<in> set (star_rests p s) \<Longrightarrow> \<exists>q. s = q @ s'"
proof (induction s)
  case Nil
  then show ?case by simp
next
  case (Cons c cs)
  show ?case
  proof (cases "s' = c # cs")
    case True
    then show ?thesis by simp
  next
    case False
    with Cons.prems have "s' \<in> set (star_rests p cs)" by (auto split: if_splits)
    from Cons.IH[OF this] obtain q where "cs = q @ s'" by blast
    then have "c # cs = (c # q) @ s'" by simp
    then show ?thesis by blast
  qed
qed

lemma rm_suffix:
  "(s', g') \<in> set (rm r (s, g)) \<Longrightarrow> \<exists>p. s = p @ s'"
proof (induction r arbitrary: s g s' g')
  case Eps
  then show ?case by simp
next
  case (Chr p)
  then show ?case by (cases s) (auto split: if_splits)
next
  case (Seq a b)
  from Seq.prems obtain s1 g1 where
    a: "(s1, g1) \<in> set (rm a (s, g))" and b: "(s', g') \<in> set (rm b (s1, g1))"
    by auto
  from Seq.IH(1)[OF a] obtain p where "s = p @ s1" by blast
  moreover from Seq.IH(2)[OF b] obtain q where "s1 = q @ s'" by blast
  ultimately have "s = (p @ q) @ s'" by simp
  then show ?case by blast
next
  case (Alt a b)
  then show ?case by auto
next
  case (Opt a)
  then show ?case by auto
next
  case (Star p)
  then have "s' \<in> set (star_rests p s)" by auto
  then show ?case by (rule star_rests_suffix)
next
  case (Plus p)
  then have "s' \<in> set (star_rests p s)" by (auto dest: in_set_butlastD)
  then show ?case by (rule star_rests_suffix)
next
  case (LazyStar p)
  then have "s' \<in> set (star_rests p s)" by auto
  then show ?case by (rule star_rests_suffix)
next
  case (Grp n a)
  then obtain g1 where "(s', g1) \<in> set (rm a (s, g))" by auto
  from Grp.IH[OF this] show ?case .
qed

lemma rm_length: "(s', g') \<in> set (rm r (s, g)) \<Longrightarrow> length s' \<le> length s"
  using rm_suffix[of s' g' r s g] by auto

lemma search_at_length:
  "search_at r s = Some (n, s', g) \<Longrightarrow> n + length s' \<le> length s"
proof (induction s arbitrary: n)
  case Nil
  then obtain rest where "rm r ([], Map.empty) = (s', g) # rest" and "n = 0"
    by (auto split: list.splits)
  then have "(s', g) \<in> set (rm r ([], Map.empty))" by simp
  from rm_length[OF this] \<open>n = 0\<close> show ?case by simp
next
  case (Cons c cs)
  show ?case
  proof (cases "rm r (c # cs, Map.empty)")
    case Nil
    with Cons.prems obtain m where "search_at r cs = Some (m, s', g)" and "n = Suc m"
      by auto
    with Cons.IH show ?thesis by fastforce
  next
    case (Cons x rest)
    with Cons.prems have "x = (s', g)" and "n = 0" by (auto split: prod.splits)
    with Cons have "(s', g) \<in> set (rm r (c # cs, Map.empty))" by simp
    from rm_length[OF this] \<open>n = 0\<close> show ?thesis by simp
  qed
qed

text \<open>
  \<^verbatim>\<open>re.finditer\<close> and \<^verbatim>\<open>re.findall\<close>: the matches from left to right, each search
  starting where the previous match ended. A match is recorded with its start and end
  offsets in the whole text. (After an empty match the scan moves on by one code point;
  no pattern that the source scans in this way can match the empty text.)
\<close>

record re_match =
  m_start :: nat
  m_end :: nat
  m_groups :: caps

function finditer_from :: "re \<Rightarrow> nat \<Rightarrow> ustring \<Rightarrow> re_match list" where
  "finditer_from r off s =
     (case search_at r s of
        None \<Rightarrow> []
      | Some (n, s', g) \<Rightarrow>
          \<lparr>m_start = off + n, m_end = off + (length s - length s'), m_groups = g\<rparr> #
          (if n < length s - length s' then finditer_from r (off + (length s - length s')) s'
           else (case s' of
                   [] \<Rightarrow> []
                 | c # t \<Rightarrow> finditer_from r (Suc (off + (length s - length s'))) t)))"
  by pat_completeness auto
termination
  by (relation "measure (\<lambda>(r, off, s). length s)") (auto dest: search_at_length)

declare finditer_from.simps [simp del]

definition finditer :: "re \<Rightarrow> ustring \<Rightarrow> re_match list" where
  "finditer r s = finditer_from r 0 s"

text \<open>\<^verbatim>\<open>re.findall\<close> for a pattern with one group: the text of group 1 of every match.\<close>

definition findall :: "re \<Rightarrow> ustring \<Rightarrow> ustring list" where
  "findall r s = map (\<lambda>m. case m_groups m 1 of None \<Rightarrow> [] | Some t \<Rightarrow> t) (finditer r s)"

section \<open>Lexical extractors\<close>

text \<open>
  The number literals of the patterns: \<^verbatim>\<open>-?\d+\.?\d*\<close> and, without the sign,
  \<^verbatim>\<open>\d+\.?\d*\<close>.
\<close>

definition unsigned_number :: "ucd \<Rightarrow> re" where
  "unsigned_number U = seq [Plus (is_decimal U), Opt (chr 0x2E), Star (is_decimal U)]"

definition number :: "ucd \<Rightarrow> re" where
  "number U = Seq (Opt (chr 0x2D)) (unsigned_number U)"

text \<open>
  The pattern of \<^verbatim>\<open>_extract_coordinates\<close>:
  \<^verbatim>\<open>\(?\s*(-?\d+\.?\d*)\s*,\s*(-?\d+\.?\d*)(?:\s*,\s*(-?\d+\.?\d*))?\s*\)?\<close>
\<close>

definition coordinate_pattern :: "ucd \<Rightarrow> re" where
  "coordinate_pattern U =
     seq [Opt (chr 0x28), Star (is_space U), Grp 1 (number U),
          Star (is_space U), chr 0x2C, Star (is_space U), Grp 2 (number U),
          Opt (seq [Star (is_space U), chr 0x2C, Star (is_space U), Grp 3 (number U)]),
          Star (is_space U), Opt (chr 0x29)]"

type_synonym coordinate = "rat \<times> rat \<times> rat"

text \<open>
  \<^verbatim>\<open>float(match.group(n))\<close>: \<^verbatim>\<open>TypeError\<close> when the group did not take part in the match,
  \<^verbatim>\<open>ValueError\<close> when its text is not a number.
\<close>

definition group_float :: "ucd \<Rightarrow> caps \<Rightarrow> nat \<Rightarrow> py_error + rat" where
  "group_float U g n =
     (case g n of
        None \<Rightarrow> Inl TypeError
      | Some t \<Rightarrow> (case py_float U t of None \<Rightarrow> Inl ValueError | Some v \<Rightarrow> Inr v))"

definition bindE :: "py_error + 'a \<Rightarrow> ('a \<Rightarrow> py_error + 'b) \<Rightarrow> py_error + 'b" where
  "bindE x f = (case x of Inl e \<Rightarrow> Inl e | Inr a \<Rightarrow> f a)"

text \<open>A \<^verbatim>\<open>for\<close> loop (or comprehension) that appends \<open>f x\<close> for each \<open>x\<close> and stops at a raise.\<close>

fun collect :: "('a \<Rightarrow> py_error + 'b) \<Rightarrow> 'a list \<Rightarrow> py_error + 'b list" where
  "collect f [] = Inr []"
| "collect f (x # xs) = bindE (f x) (\<lambda>y. bindE (collect f xs) (\<lambda>ys. Inr (y # ys)))"

text \<open>The body of the loop of \<^verbatim>\<open>_extract_coordinates\<close>: \<open>z\<close> is 0.0 without a third group.\<close>

definition coordinate_of :: "ucd \<Rightarrow> re_match \<Rightarrow> py_error + coordinate" where
  "coordinate_of U m =
     bindE (group_float U (m_groups m) 1) (\<lambda>x.
     bindE (group_float U (m_groups m) 2) (\<lambda>y.
     bindE (if m_groups m 3 \<noteq> None \<and> m_groups m 3 \<noteq> Some []
            then group_float U (m_groups m) 3 else Inr 0) (\<lambda>z.
     Inr (x, y, z))))"

definition extract_coordinates :: "ucd \<Rightarrow> ustring \<Rightarrow> py_error + coordinate list" where
  "extract_coordinates U text = collect (coordinate_of U) (finditer (coordinate_pattern U) text)"

text \<open>\<^verbatim>\<open>_extract_numbers\<close>: every literal \<^verbatim>\<open>(-?\d+\.?\d*)\<close> of the text, as a float.\<close>

definition float_of :: "ucd \<Rightarrow> ustring \<Rightarrow> py_error + rat" where
  "float_of U t = (case py_float U t of None \<Rightarrow> Inl ValueError | Some v \<Rightarrow> Inr v)"

definition extract_numbers :: "ucd \<Rightarrow> ustring \<Rightarrow> py_error + rat list" where
  "extract_numbers U text = collect (float_of U) (findall (Grp 1 (number U)) text)"

text \<open>
  A named parameter, as every builder reads it:
  \<^verbatim>\<open>m = re.search(pattern, command); if m: value = float(m.group(1))\<close>.
\<close>

definition search_float :: "ucd \<Rightarrow> re \<Rightarrow> ustring \<Rightarrow> py_error + rat option" where
  "search_float U r command =
     (case search r command of
        None \<Rightarrow> Inr None
      | Some g \<Rightarrow> bindE (group_float U g 1) (\<lambda>v. Inr (Some v)))"

text \<open>
  A label (an alternation of literals), the characters skipped lazily after it, and the
  number captured: \<^verbatim>\<open>(?:a|b|c)[^\d]*?(-?\d+\.?\d*)\<close>.
\<close>

definition not_decimal :: "ucd \<Rightarrow> nat \<Rightarrow> bool" where
  "not_decimal U c = (\<not> is_decimal U c)"

definition not_word :: "ucd \<Rightarrow> nat \<Rightarrow> bool" where
  "not_word U c = (\<not> is_word U c)"

definition labelled :: "ucd \<Rightarrow> re list \<Rightarrow> re \<Rightarrow> re" where
  "labelled U labels num = seq [alts labels, LazyStar (not_decimal U), Grp 1 num]"

definition quote :: re where
  "quote = one_of [0x22, 0x27]"

text \<open>\<^verbatim>\<open>(.*?)\<close>: the dot matches every code point but the line feed.\<close>

definition lazy_any :: re where
  "lazy_any = LazyStar (\<lambda>c. c \<noteq> 0x0A)"

section \<open>The processor and its tables\<close>

text \<open>
  The attributes \<^verbatim>\<open>__init__\<close> assigns, as association lists in the order of the
  dictionary literals (Python iterates a \<^verbatim>\<open>dict\<close> in insertion order). The assignment
  of \<^verbatim>\<open>self.domain_keywords\<close> is commented out in \<^verbatim>\<open>__init__\<close> (lines 106-114), so an
  object built by it has no such attribute: \<open>domain_keywords\<close> is \<open>None\<close>.
\<close>

record NLPProcessor =
  color_rgb_map :: "(ustring \<times> int) list"
  shape_keywords :: "(ustring \<times> string) list"
  action_keywords :: "(ustring \<times> string) list"
  domain_keywords :: "(ustring \<times> string) list option"

definition init :: NLPProcessor where
  "init =
     \<lparr> color_rgb_map =
         [([0x7EA2, 0x8272], 1), ([0x9EC4, 0x8272], 2), ([0x7EFF, 0x8272], 3),
          ([0x9752, 0x8272], 4), ([0x84DD, 0x8272], 5), ([0x6D0B, 0x7EA2, 0x8272], 6),
          ([0x767D, 0x8272], 7), ([0x7070, 0x8272], 8), ([0x6D45, 0x7070, 0x8272], 9),
          ([0x9ED1, 0x8272], 250), ([0x68D5, 0x8272], 251), ([0x6A59, 0x8272], 30),
          ([0x7D2B, 0x8272], 200),
          (ascii ''Red'', 1), (ascii ''Yellow'', 2), (ascii ''Green'', 3), (ascii ''Cyan'', 4),
          (ascii ''Blue'', 5), (ascii ''Magenta'', 6), (ascii ''White'', 7), (ascii ''Gray'', 8),
          (ascii ''Light Gray'', 9), (ascii ''Black'', 250), (ascii ''Brown'', 251),
          (ascii ''Orange'', 30), (ascii ''Purple'', 200)],
       shape_keywords =
         [([0x76F4, 0x7EBF], ''line''), ([0x7EBF], ''line''),
          ([0x5706], ''circle''), ([0x5706, 0x5F62], ''circle''),
          ([0x5F27], ''arc''), ([0x5706, 0x5F27], ''arc''),
          ([0x77E9, 0x5F62], ''rectangle''), ([0x65B9, 0x5F62], ''rectangle''),
          ([0x6B63, 0x65B9, 0x5F62], ''square''),
          ([0x591A, 0x6BB5, 0x7EBF], ''polyline''), ([0x6298, 0x7EBF], ''polyline''),
          ([0x6587, 0x672C], ''text''), ([0x6587, 0x5B57], ''text''),
          ([0x6807, 0x6CE8], ''dimension''), ([0x5C3A, 0x5BF8, 0x6807, 0x6CE8], ''dimension''),
          ([0x5899], ''wall''), ([0x5899, 0x4F53], ''wall''),
          ([0x95E8], ''door''), ([0x7A97], ''window''),
          ([0x697C, 0x68AF], ''stair''), ([0x67F1, 0x5B50], ''column''),
          ([0x63D2, 0x5EA7], ''outlet''),
          ([0x5F00, 0x5173], ''switch''),
          ([0x706F], ''light''), ([0x706F, 0x5177], ''light''),
          ([0x914D, 0x7535, 0x7BB1], ''distribution_box''),
          ([0x8F74], ''shaft''),
          ([0x9F7F, 0x8F6E], ''gear''),
          ([0x8F74, 0x627F], ''bearing''),
          ([0x6CD5, 0x5170], ''flange'')],
       action_keywords =
         [([0x753B], ''draw''), ([0x7ED8, 0x5236], ''draw''), ([0x521B, 0x5EFA], ''draw''),
          ([0x6DFB, 0x52A0], ''draw''),
          ([0x4FEE, 0x6539], ''modify''), ([0x8C03, 0x6574], ''modify''), ([0x6539, 0x53D8], ''modify''),
          ([0x79FB, 0x52A8], ''move''), ([0x65CB, 0x8F6C], ''rotate''), ([0x7F29, 0x653E], ''scale''),
          ([0x653E, 0x5927], ''scale_up''), ([0x7F29, 0x5C0F], ''scale_down''),
          ([0x5220, 0x9664], ''erase''), ([0x64E6, 0x9664], ''erase''), ([0x79FB, 0x9664], ''erase''),
          ([0x4FDD, 0x5B58], ''save''),
          ([0x6807, 0x6CE8], ''dimension''),
          ([0x586B, 0x5145], ''hatch''),
          ([0x521B, 0x5EFA, 0x56FE, 0x5C42], ''create_layer''),
          ([0x5207, 0x6362, 0x56FE, 0x5C42], ''change_layer'')],
       domain_keywords = None \<rparr>"

text \<open>
  To follow a command past the missing attribute, the processor is also considered
  with \<^verbatim>\<open>domain_keywords\<close> assigned the table of the commented-out lines 107-114.
\<close>

definition commented_domain_keywords :: "(ustring \<times> string) list" where
  "commented_domain_keywords =
     [([0x5EFA, 0x7B51], ''architecture''), ([0x7535, 0x6C14], ''electrical''),
      ([0x673A, 0x68B0], ''mechanical''), ([0x571F, 0x6728], ''civil''),
      ([0x7BA1, 0x9053], ''piping''), ([0x7ED3, 0x6784], ''structural'')]"

definition with_domains :: NLPProcessor where
  "with_domains = init\<lparr>domain_keywords := Some commented_domain_keywords\<rparr>"

text \<open>
  The module reads \<^verbatim>\<open>config.json\<close> when it is imported; the file is not among the
  sources, so the two entries the code uses are parameters.
\<close>

record config =
  output_directory :: ustring
  output_default_filename :: ustring

text \<open>\<^verbatim>\<open>os.path.join\<close> of two components, as \<^verbatim>\<open>posixpath\<close> defines it.\<close>

definition path_join :: "ustring \<Rightarrow> ustring \<Rightarrow> ustring" where
  "path_join a b =
     (if b \<noteq> [] \<and> hd b = 0x2F then b
      else if a = [] \<or> last a = 0x2F then a @ b
      else a @ [0x2F] @ b)"

text \<open>The configuration of the examples: the directory \<^verbatim>\<open>out\<close>, the file name \<^verbatim>\<open>drawing.dwg\<close>.\<close>

definition example_config :: config where
  "example_config =
     \<lparr>output_directory = ascii ''out'', output_default_filename = ascii ''drawing.dwg''\<rparr>"

section \<open>Color resolver\<close>

text \<open>
  The pattern of line 138: a group of an optional intensity prefix (one of U+6DF1, U+6D45,
  U+6DE1), one or more of \<^verbatim>\<open>[a-zA-Z\u4e00-\u9fa5]\<close>, and the ideograph U+8272 ("color").
\<close>

definition color_pattern :: re where
  "color_pattern =
     Grp 1 (seq [Opt (one_of [0x6DF1, 0x6D45, 0x6DE1]),
                 Plus (\<lambda>c. (0x61 \<le> c \<and> c \<le> 0x7A) \<or> (0x41 \<le> c \<and> c \<le> 0x5A)
                           \<or> (0x4E00 \<le> c \<and> c \<le> 0x9FA5)),
                 chr 0x8272])"

text \<open>The first key of the table, in table order, that satisfies \<open>P\<close>, with its value.\<close>

fun first_entry :: "('k \<Rightarrow> bool) \<Rightarrow> ('k \<times> 'v) list \<Rightarrow> 'v option" where
  "first_entry P [] = None"
| "first_entry P ((k, v) # rest) = (if P k then Some v else first_entry P rest)"

fun first_known :: "(ustring \<times> int) list \<Rightarrow> ustring list \<Rightarrow> int option" where
  "first_known table [] = None"
| "first_known table (m # ms) =
     (case map_of table m of Some v \<Rightarrow> Some v | None \<Rightarrow> first_known table ms)"

definition extract_color_from_command :: "ucd \<Rightarrow> NLPProcessor \<Rightarrow> ustring option \<Rightarrow> int" where
  "extract_color_from_command U self command =
     (case command of
        None \<Rightarrow> 7
      | Some command \<Rightarrow>
          (case (case py_int U command of
                   Some num \<Rightarrow> if num \<ge> 1 \<and> num \<le> 255 then Some num else None
                 | None \<Rightarrow> None) of
             Some num \<Rightarrow> num
           | None \<Rightarrow>
               (let command = str_lower U command in
                case first_entry (\<lambda>color_name. contains (str_lower U color_name) command)
                       (color_rgb_map self) of
                  Some v \<Rightarrow> v
                | None \<Rightarrow>
                    (case first_known (color_rgb_map self) (findall color_pattern command) of
                       Some v \<Rightarrow> v
                     | None \<Rightarrow> 7))))"

section \<open>Intent classifier\<close>

text \<open>
  The inner loop of \<^verbatim>\<open>_identify_command_type\<close> (lines 240-256) over the shape table, for
  one action whose phrase occurs in the command: \<open>Some\<close> is a \<^verbatim>\<open>return\<close>, \<open>None\<close> is the
  loop running to its end.
\<close>

fun shape_loop :: "ustring \<Rightarrow> string \<Rightarrow> (ustring \<times> string) list \<Rightarrow> string option" where
  "shape_loop command action_type [] = None"
| "shape_loop command action_type ((shape, shape_type) # rest) =
     (if contains shape command then
        (if action_type = ''draw'' then
           (if shape_type = ''line'' then Some ''draw_line''
            else if shape_type = ''circle'' then Some ''draw_circle''
            else if shape_type = ''arc'' then Some ''draw_arc''
            else if shape_type \<in> set [''rectangle'', ''square''] then Some ''draw_rectangle''
            else if shape_type = ''polyline'' then Some ''draw_polyline''
            else if shape_type = ''text'' then Some ''draw_text''
            else if shape_type = ''dimension'' then Some ''add_dimension''
            else shape_loop command action_type rest)
         else shape_loop command action_type rest)
      else shape_loop command action_type rest)"

text \<open>The outer loop (lines 219-256) over the action table.\<close>

fun action_loop ::
  "(ustring \<times> string) list \<Rightarrow> ustring \<Rightarrow> (ustring \<times> string) list \<Rightarrow> string option" where
  "action_loop shapes command [] = None"
| "action_loop shapes command ((action, action_type) # rest) =
     (if contains action command then
        (case shape_loop command action_type shapes of
           Some t \<Rightarrow> Some t
         | None \<Rightarrow> action_loop shapes command rest)
      else action_loop shapes command rest)"

text \<open>
  Lines 219-283 of \<^verbatim>\<open>_identify_command_type\<close>: the two loops, then the special phrases
  in their fixed order: U+56FE U+5C42 ("layer") with one of "create", "new", "add";
  U+6807 U+6CE8 ("dimension"); U+4FDD U+5B58 ("save").
\<close>

definition classify :: "NLPProcessor \<Rightarrow> ustring \<Rightarrow> string" where
  "classify self command =
     (case action_loop (shape_keywords self) command (action_keywords self) of
        Some t \<Rightarrow> t
      | None \<Rightarrow>
          if contains [0x56FE, 0x5C42] command
             \<and> list_ex (\<lambda>action. contains action command)
                  [[0x521B, 0x5EFA], [0x65B0, 0x5EFA], [0x6DFB, 0x52A0]]
          then ''create_layer''
          else if contains [0x6807, 0x6CE8] command then ''add_dimension''
          else if contains [0x4FDD, 0x5B58] command then ''save''
          else ''unknown'')"

text \<open>
  \<^verbatim>\<open>_identify_command_type\<close> as a whole. It starts (lines 211-216) with a scan of
  \<^verbatim>\<open>self.domain_keywords\<close>; reading the attribute raises \<^verbatim>\<open>AttributeError\<close> when the object
  has none. The domain found is not used afterwards.
\<close>

definition identify_command_type :: "NLPProcessor \<Rightarrow> ustring \<Rightarrow> py_error + string" where
  "identify_command_type self command =
     (case domain_keywords self of
        None \<Rightarrow> Inl AttributeError
      | Some table \<Rightarrow>
          (let domain = first_entry (\<lambda>domain_keyword. contains domain_keyword command) table
           in Inr (classify self command)))"

lemma init_domain_keywords: "domain_keywords init = None"
  by (simp add: init_def)

lemma with_domains_identify:
  "identify_command_type with_domains command = Inr (classify init command)"
  by (simp add: identify_command_type_def with_domains_def classify_def)

section \<open>Command descriptors and parameter builders\<close>

text \<open>
  The dictionaries the builders return, one constructor for each value of the
  \<^verbatim>\<open>"type"\<close> entry, with the other entries as arguments. An
  entry that holds \<^verbatim>\<open>match.group(1)\<close> unchanged is optional, as the group is in Python.
\<close>

datatype descriptor =
    DrawLine coordinate coordinate "ustring option"
      \<comment> \<open>\<^verbatim>\<open>start_point\<close>, \<^verbatim>\<open>end_point\<close>, \<^verbatim>\<open>note\<close> (when the defaults were used)\<close>
  | DrawCircle coordinate rat
      \<comment> \<open>\<^verbatim>\<open>center\<close>, \<^verbatim>\<open>radius\<close>\<close>
  | DrawArc coordinate rat rat rat
      \<comment> \<open>\<^verbatim>\<open>center\<close>, \<^verbatim>\<open>radius\<close>, \<^verbatim>\<open>start_angle\<close>, \<^verbatim>\<open>end_angle\<close>\<close>
  | DrawRectangle coordinate coordinate
      \<comment> \<open>\<^verbatim>\<open>corner1\<close>, \<^verbatim>\<open>corner2\<close>\<close>
  | DrawPolyline "coordinate list" bool
      \<comment> \<open>\<^verbatim>\<open>points\<close>, \<^verbatim>\<open>closed\<close>\<close>
  | DrawText coordinate "ustring option" rat rat
      \<comment> \<open>\<^verbatim>\<open>position\<close>, \<^verbatim>\<open>text\<close>, \<^verbatim>\<open>height\<close>, \<^verbatim>\<open>rotation\<close>\<close>
  | DrawHatch "coordinate list" ustring rat
      \<comment> \<open>\<^verbatim>\<open>points\<close>, \<^verbatim>\<open>pattern_name\<close>, \<^verbatim>\<open>scale\<close>\<close>
  | DrawWall coordinate coordinate rat
      \<comment> \<open>\<^verbatim>\<open>start_point\<close>, \<^verbatim>\<open>end_point\<close>, \<^verbatim>\<open>width\<close>\<close>
  | Save "ustring option"
      \<comment> \<open>\<^verbatim>\<open>file_path\<close>\<close>
  | Error ustring
      \<comment> \<open>\<^verbatim>\<open>message\<close>\<close>
  | Unknown ustring ustring
      \<comment> \<open>\<^verbatim>\<open>error\<close>, \<^verbatim>\<open>original_command\<close>\<close>

text \<open>The \<^verbatim>\<open>"type"\<close> entry of a descriptor.\<close>

fun type_of :: "descriptor \<Rightarrow> string" where
  "type_of (DrawLine _ _ _) = ''draw_line''"
| "type_of (DrawCircle _ _) = ''draw_circle''"
| "type_of (DrawArc _ _ _ _) = ''draw_arc''"
| "type_of (DrawRectangle _ _) = ''draw_rectangle''"
| "type_of (DrawPolyline _ _) = ''draw_polyline''"
| "type_of (DrawText _ _ _ _) = ''draw_text''"
| "type_of (DrawHatch _ _ _) = ''draw_hatch''"
| "type_of (DrawWall _ _ _) = ''draw_wall''"
| "type_of (Save _) = ''save''"
| "type_of (Error _) = ''error''"
| "type_of (Unknown _ _) = ''unknown''"

text \<open>The labels of the named parameters, in the order of each pattern.\<close>

definition radius_pattern :: "ucd \<Rightarrow> re" where
  "radius_pattern U =
     labelled U [lit [0x534A, 0x5F84], lit_ci U (ascii ''r''), lit_ci U (ascii ''radius'')] (number U)"

definition start_angle_pattern :: "ucd \<Rightarrow> re" where
  "start_angle_pattern U =
     labelled U [lit [0x8D77, 0x59CB, 0x89D2, 0x5EA6], lit_ci U (ascii ''start angle'')] (number U)"

definition end_angle_pattern :: "ucd \<Rightarrow> re" where
  "end_angle_pattern U =
     labelled U [lit [0x7ED3, 0x675F, 0x89D2, 0x5EA6], lit_ci U (ascii ''end angle'')] (number U)"

definition width_pattern :: "ucd \<Rightarrow> re" where
  "width_pattern U = labelled U [lit [0x5BBD, 0x5EA6], lit_ci U (ascii ''width'')] (number U)"

definition height_pattern :: "ucd \<Rightarrow> re" where
  "height_pattern U = labelled U [lit [0x9AD8, 0x5EA6], lit_ci U (ascii ''height'')] (number U)"

definition rotation_pattern :: "ucd \<Rightarrow> re" where
  "rotation_pattern U =
     labelled U [lit [0x65CB, 0x8F6C], lit [0x89D2, 0x5EA6], lit_ci U (ascii ''rotation'')] (number U)"

definition scale_pattern :: "ucd \<Rightarrow> re" where
  "scale_pattern U =
     labelled U [lit [0x6BD4, 0x4F8B], lit [0x7F29, 0x653E], lit_ci U (ascii ''scale'')]
       (unsigned_number U)"

text \<open>Line 703, compiled without \<^verbatim>\<open>re.IGNORECASE\<close>.\<close>

definition wall_width_pattern :: "ucd \<Rightarrow> re" where
  "wall_width_pattern U =
     labelled U [lit [0x5BBD, 0x5EA6], lit [0x5BBD], lit [0x539A], lit [0x539A, 0x5EA6]]
       (unsigned_number U)"

text \<open>
  Line 492: \<^verbatim>\<open>[...][...]\s*["'](.*?)["']\<close>, where the first bracket is a character class
  (the ideographs U+6587 U+672C U+5185 U+5BB9, the bar and the letters of "text") and
  the second is the full-width or the ASCII colon.
\<close>

definition text_pattern :: "ucd \<Rightarrow> re" where
  "text_pattern U =
     seq [one_of ([0x6587, 0x672C, 0x5185, 0x5BB9, 0x7C] @ ascii ''text'' @ [0x7C, 0x5185, 0x5BB9]),
          one_of [0xFF1A, 0x3A], Star (is_space U), quote, Grp 1 lazy_any, quote]"

definition quote_pattern :: re where
  "quote_pattern = seq [quote, Grp 1 lazy_any, quote]"

text \<open>Lines 546-547; the first pattern ends with one more apostrophe after the class.\<close>

definition hatch_label :: "ucd \<Rightarrow> re" where
  "hatch_label U = alts [lit [0x56FE, 0x6848], lit_ci U (ascii ''pattern'')]"

definition pattern_patterns :: "ucd \<Rightarrow> re list" where
  "pattern_patterns U =
     [seq [hatch_label U, LazyStar (not_word U), quote, Grp 1 lazy_any, quote, chr 0x27],
      seq [hatch_label U, LazyStar (not_word U), Grp 1 (Plus (is_word U))]]"

text \<open>Line 728.\<close>

definition path_pattern :: "ucd \<Rightarrow> re" where
  "path_pattern U =
     seq [alts [lit [0x8DEF, 0x5F84], lit [0x4FDD, 0x5B58, 0x5230], lit_ci U (ascii ''path'')],
          LazyStar (not_word U), quote, Grp 1 lazy_any, quote]"

definition parse_draw_line :: "ucd \<Rightarrow> ustring \<Rightarrow> py_error + descriptor" where
  "parse_draw_line U command =
     bindE (extract_coordinates U command) (\<lambda>coordinates.
     if length coordinates \<ge> 2
     then Inr (DrawLine (coordinates ! 0) (coordinates ! 1) None)
     else Inr (DrawLine (0, 0, 0) (100, 100, 0)
            (Some [0x4F7F, 0x7528, 0x9ED8, 0x8BA4, 0x5750, 0x6807, 0xFF0C, 0x56E0, 0x4E3A,
                   0x547D, 0x4EE4, 0x4E2D, 0x672A, 0x63D0, 0x4F9B, 0x8DB3, 0x591F, 0x7684,
                   0x5750, 0x6807, 0x4FE1, 0x606F])))"

text \<open>The radius of a circle or an arc: the labelled number, else the first number, else 50.\<close>

definition radius_of :: "ucd \<Rightarrow> ustring \<Rightarrow> rat list \<Rightarrow> py_error + rat" where
  "radius_of U command numbers =
     bindE (search_float U (radius_pattern U) command) (\<lambda>radius_match.
     case radius_match of
       Some radius \<Rightarrow> Inr radius
     | None \<Rightarrow> if length numbers > 0 then Inr (numbers ! 0) else Inr 50)"

definition parse_draw_circle :: "ucd \<Rightarrow> ustring \<Rightarrow> py_error + descriptor" where
  "parse_draw_circle U command =
     bindE (extract_coordinates U command) (\<lambda>coordinates.
     bindE (extract_numbers U command) (\<lambda>numbers.
     bindE (radius_of U command numbers) (\<lambda>radius.
     Inr (DrawCircle (if length coordinates > 0 then coordinates ! 0 else (0, 0, 0)) radius))))"

definition parse_draw_arc :: "ucd \<Rightarrow> ustring \<Rightarrow> py_error + descriptor" where
  "parse_draw_arc U command =
     bindE (extract_coordinates U command) (\<lambda>coordinates.
     bindE (extract_numbers U command) (\<lambda>numbers.
     bindE (radius_of U command numbers) (\<lambda>radius.
     bindE (search_float U (start_angle_pattern U) command) (\<lambda>start_angle_match.
     bindE (search_float U (end_angle_pattern U) command) (\<lambda>end_angle_match.
     Inr (DrawArc (if length coordinates > 0 then coordinates ! 0 else (0, 0, 0)) radius
            (case start_angle_match of Some a \<Rightarrow> a | None \<Rightarrow> 0)
            (case end_angle_match of Some a \<Rightarrow> a | None \<Rightarrow> 90)))))))"

definition parse_draw_rectangle :: "ucd \<Rightarrow> ustring \<Rightarrow> py_error + descriptor" where
  "parse_draw_rectangle U command =
     bindE (extract_coordinates U command) (\<lambda>coordinates.
     if length coordinates \<ge> 2
     then Inr (DrawRectangle (coordinates ! 0) (coordinates ! 1))
     else
       bindE (search_float U (width_pattern U) command) (\<lambda>width_match.
       bindE (search_float U (height_pattern U) command) (\<lambda>height_match.
       let width = (case width_match of Some w \<Rightarrow> w | None \<Rightarrow> 100);
           height = (case height_match of Some h \<Rightarrow> h | None \<Rightarrow> 100)
       in if length coordinates = 1
          then (case coordinates ! 0 of (x, y, z) \<Rightarrow>
                  Inr (DrawRectangle (x, y, z) (x + width, y + height, z)))
          else Inr (DrawRectangle (0, 0, 0) (width, height, 0)))))"

definition parse_draw_polyline :: "ucd \<Rightarrow> ustring \<Rightarrow> py_error + descriptor" where
  "parse_draw_polyline U command =
     bindE (extract_coordinates U command) (\<lambda>coordinates.
     let closed = (contains [0x95ED, 0x5408] command \<or> contains [0x5C01, 0x95ED] command)
     in if length coordinates \<ge> 2
        then Inr (DrawPolyline coordinates closed)
        else Inr (Error [0x7ED8, 0x5236, 0x591A, 0x6BB5, 0x7EBF, 0x9700, 0x8981, 0x81F3, 0x5C11,
                         0x4E24, 0x4E2A, 0x5750, 0x6807, 0x70B9]))"

definition parse_draw_text :: "ucd \<Rightarrow> ustring \<Rightarrow> py_error + descriptor" where
  "parse_draw_text U command =
     bindE (extract_coordinates U command) (\<lambda>coordinates.
     let txt = (case search (text_pattern U) command of
                  Some g \<Rightarrow> g 1
                | None \<Rightarrow>
                    (case search quote_pattern command of
                       Some g \<Rightarrow> g 1
                     | None \<Rightarrow> Some [0x793A, 0x4F8B, 0x6587, 0x672C]))
     in
     bindE (search_float U (height_pattern U) command) (\<lambda>height_match.
     bindE (search_float U (rotation_pattern U) command) (\<lambda>rotation_match.
     Inr (DrawText (if length coordinates > 0 then coordinates ! 0 else (0, 0, 0)) txt
            (case height_match of Some h \<Rightarrow> h | None \<Rightarrow> 5 / 2)
            (case rotation_match of Some r \<Rightarrow> r | None \<Rightarrow> 0)))))"

text \<open>
  The loop of lines 550-554 over the two patterns: the first that matches gives the
  name, upper-cased (\<^verbatim>\<open>.upper()\<close> of a group that took no part would raise).
\<close>

fun pattern_name_of :: "ucd \<Rightarrow> ustring \<Rightarrow> ustring \<Rightarrow> re list \<Rightarrow> py_error + ustring" where
  "pattern_name_of U command pattern_name [] = Inr pattern_name"
| "pattern_name_of U command pattern_name (pattern # rest) =
     (case search pattern command of
        Some g \<Rightarrow> (case g 1 of None \<Rightarrow> Inl AttributeError | Some t \<Rightarrow> Inr (str_upper U t))
      | None \<Rightarrow> pattern_name_of U command pattern_name rest)"

definition parse_draw_hatch :: "ucd \<Rightarrow> ustring \<Rightarrow> py_error + descriptor" where
  "parse_draw_hatch U command =
     bindE (extract_coordinates U command) (\<lambda>coordinates.
     bindE (pattern_name_of U command (ascii ''SOLID'') (pattern_patterns U)) (\<lambda>pattern_name.
     bindE (search_float U (scale_pattern U) command) (\<lambda>scale_match.
     let scale = (case scale_match of Some v \<Rightarrow> v | None \<Rightarrow> 1)
     in if length coordinates \<ge> 3
        then Inr (DrawHatch coordinates pattern_name scale)
        else Inr (Error [0x7ED8, 0x5236, 0x586B, 0x5145, 0x9700, 0x8981, 0x81F3, 0x5C11, 0x33,
                         0x4E2A, 0x70B9, 0x6765, 0x5B9A, 0x4E49, 0x8FB9, 0x754C]))))"

text \<open>
  \<^verbatim>\<open>_parse_save\<close> (lines 696-723). Its docstring reads "parse the draw-wall command"
  and its body is the wall builder.
\<close>

definition parse_save :: "ucd \<Rightarrow> ustring \<Rightarrow> py_error + descriptor" where
  "parse_save U command =
     bindE (extract_coordinates U command) (\<lambda>coordinates.
     bindE (search_float U (wall_width_pattern U) command) (\<lambda>width_match.
     let width = (case width_match of Some w \<Rightarrow> w | None \<Rightarrow> 10)
     in if length coordinates \<ge> 2
        then Inr (DrawWall (coordinates ! 0) (coordinates ! 1) width)
        else Inr (Error [0x7ED8, 0x5236, 0x5899, 0x4F53, 0x9700, 0x8981, 0x63D0, 0x4F9B, 0x8D77,
                         0x70B9, 0x548C, 0x7EC8, 0x70B9, 0x5750, 0x6807])))"

text \<open>
  \<^verbatim>\<open>_parse_create_layer\<close> (lines 725-740). Its docstring reads "parse the save command"
  and its body is the save builder.
\<close>

definition parse_create_layer :: "ucd \<Rightarrow> config \<Rightarrow> ustring \<Rightarrow> py_error + descriptor" where
  "parse_create_layer U cfg command =
     (case search (path_pattern U) command of
        Some g \<Rightarrow> Inr (Save (g 1))
      | None \<Rightarrow> Inr (Save (Some (path_join (output_directory cfg) (output_default_filename cfg)))))"

section \<open>Top-level orchestration\<close>

text \<open>
  The chain of comparisons of \<^verbatim>\<open>parse_command\<close> (lines 171-207). The definition of
  \<^verbatim>\<open>_parse_draw_wall\<close> is commented out (line 742), so reading that attribute raises
  \<^verbatim>\<open>AttributeError\<close>.
\<close>

definition dispatch :: "ucd \<Rightarrow> config \<Rightarrow> string \<Rightarrow> ustring \<Rightarrow> py_error + descriptor" where
  "dispatch U cfg command_type command =
     (if command_type = ''draw_line'' then parse_draw_line U command
      else if command_type = ''draw_circle'' then parse_draw_circle U command
      else if command_type = ''draw_arc'' then parse_draw_arc U command
      else if command_type = ''draw_rectangle'' then parse_draw_rectangle U command
      else if command_type = ''draw_polyline'' then parse_draw_polyline U command
      else if command_type = ''draw_text'' then parse_draw_text U command
      else if command_type = ''draw_hatch'' then parse_draw_hatch U command
      else if command_type = ''save'' then parse_save U command
      else if command_type = ''draw_wall'' then Inl AttributeError
      else if command_type = ''create_layer'' then parse_create_layer U cfg command
      else Inr (Unknown [0x65E0, 0x6CD5, 0x8BC6, 0x522B, 0x7684, 0x547D, 0x4EE4, 0x7C7B, 0x578B]
                  command))"

definition parse_command :: "ucd \<Rightarrow> config \<Rightarrow> NLPProcessor \<Rightarrow> ustring \<Rightarrow> py_error + descriptor" where
  "parse_command U cfg self command =
     (let command = strip U (str_lower U command)
      in bindE (identify_command_type self command) (\<lambda>command_type.
         dispatch U cfg command_type command))"

definition process_command :: "ucd \<Rightarrow> config \<Rightarrow> NLPProcessor \<Rightarrow> ustring \<Rightarrow> py_error + descriptor" where
  "process_command U cfg self command = parse_command U cfg self command"

section \<open>What a match says about the text\<close>

text \<open>
  The patterns read declaratively: \<open>sem r g w g'\<close> holds when the pattern \<open>r\<close> matches
  exactly the text \<open>w\<close> and turns the groups \<open>g\<close> into \<open>g'\<close>. Every match the
  backtracking search finds is one in this sense (\<open>rm_sound\<close>), which is what the
  properties of the extractors rest on.
\<close>

fun sem :: "re \<Rightarrow> caps \<Rightarrow> ustring \<Rightarrow> caps \<Rightarrow> bool" where
  "sem Eps g w g' = (w = [] \<and> g' = g)"
| "sem (Chr p) g w g' = (\<exists>c. w = [c] \<and> p c \<and> g' = g)"
| "sem (Seq a b) g w g' = (\<exists>u v g1. w = u @ v \<and> sem a g u g1 \<and> sem b g1 v g')"
| "sem (Alt a b) g w g' = (sem a g w g' \<or> sem b g w g')"
| "sem (Opt a) g w g' = (sem a g w g' \<or> (w = [] \<and> g' = g))"
| "sem (Star p) g w g' = (list_all p w \<and> g' = g)"
| "sem (Plus p) g w g' = (w \<noteq> [] \<and> list_all p w \<and> g' = g)"
| "sem (LazyStar p) g w g' = (list_all p w \<and> g' = g)"
| "sem (Grp n a) g w g' = (\<exists>g1. sem a g w g1 \<and> g' = g1(n \<mapsto> w))"

lemma star_rests_elem:
  "s' \<in> set (star_rests p s) \<Longrightarrow> \<exists>w. s = w @ s' \<and> list_all p w"
proof (induction s)
  case Nil
  then show ?case by simp
next
  case (Cons c cs)
  show ?case
  proof (cases "s' = c # cs")
    case True
    then have "c # cs = [] @ s' \<and> list_all p []" by simp
    then show ?thesis by blast
  next
    case False
    with Cons.prems have pc: "p c" and "s' \<in> set (star_rests p cs)"
      by (auto split: if_splits)
    from Cons.IH[OF this(2)] obtain w where "cs = w @ s'" "list_all p w" by blast
    with pc have "c # cs = (c # w) @ s' \<and> list_all p (c # w)" by simp
    then show ?thesis by blast
  qed
qed

lemma butlast_star_rests_elem:
  assumes "s' \<in> set (butlast (star_rests p s))"
  shows "\<exists>w. s = w @ s' \<and> w \<noteq> [] \<and> list_all p w"
proof (cases s)
  case Nil
  with assms show ?thesis by simp
next
  case (Cons c cs)
  show ?thesis
  proof (cases "p c")
    case True
    with Cons have "butlast (star_rests p s) = star_rests p cs"
      by (simp add: butlast_append)
    with assms have "s' \<in> set (star_rests p cs)" by simp
    from star_rests_elem[OF this] obtain w where "cs = w @ s'" "list_all p w" by blast
    with True Cons have "s = (c # w) @ s' \<and> c # w \<noteq> [] \<and> list_all p (c # w)" by simp
    then show ?thesis by blast
  next
    case False
    with Cons assms show ?thesis by simp
  qed
qed

lemma rm_sound:
  "(s', g') \<in> set (rm r (s, g)) \<Longrightarrow> \<exists>w. s = w @ s' \<and> sem r g w g'"
proof (induction r arbitrary: s g s' g')
  case Eps
  then show ?case by simp
next
  case (Chr p)
  then show ?case by (cases s) (auto split: if_splits)
next
  case (Seq a b)
  from Seq.prems obtain s1 g1 where
    a: "(s1, g1) \<in> set (rm a (s, g))" and b: "(s', g') \<in> set (rm b (s1, g1))"
    by auto
  from Seq.IH(1)[OF a] obtain u where u: "s = u @ s1" "sem a g u g1" by blast
  from Seq.IH(2)[OF b] obtain v where v: "s1 = v @ s'" "sem b g1 v g'" by blast
  from u v have "s = (u @ v) @ s' \<and> sem (Seq a b) g (u @ v) g'" by auto
  then show ?case by blast
next
  case (Alt a b)
  then have "(s', g') \<in> set (rm a (s, g)) \<or> (s', g') \<in> set (rm b (s, g))" by simp
  then show ?case using Alt.IH by fastforce
next
  case (Opt a)
  then have "(s', g') \<in> set (rm a (s, g)) \<or> (s' = s \<and> g' = g)" by auto
  then show ?case using Opt.IH by fastforce
next
  case (Star p)
  then have "s' \<in> set (star_rests p s)" and "g' = g" by auto
  with star_rests_elem[of s' p s] show ?case by auto
next
  case (Plus p)
  then have "s' \<in> set (butlast (star_rests p s))" and "g' = g" by auto
  with butlast_star_rests_elem[of s' p s] show ?case by auto
next
  case (LazyStar p)
  then have "s' \<in> set (star_rests p s)" and "g' = g" by auto
  with star_rests_elem[of s' p s] show ?case by auto
next
  case (Grp n a)
  then obtain g1 where a: "(s', g1) \<in> set (rm a (s, g))" and g': "g' = g1(n \<mapsto> take (length s - length s') s)"
    by auto
  from Grp.IH[OF a] obtain w where "s = w @ s'" "sem a g w g1" by blast
  with g' have "s = w @ s' \<and> sem (Grp n a) g w g'" by auto
  then show ?case by blast
qed

lemma search_at_sound:
  "search_at r s = Some (n, s', g) \<Longrightarrow> n \<le> length s \<and> (s', g) \<in> set (rm r (drop n s, Map.empty))"
proof (induction s arbitrary: n)
  case Nil
  then show ?case by (auto split: list.splits)
next
  case (Cons c cs)
  show ?case
  proof (cases "rm r (c # cs, Map.empty)")
    case Nil
    with Cons.prems obtain m where "search_at r cs = Some (m, s', g)" and "n = Suc m"
      by auto
    with Cons.IH show ?thesis by fastforce
  next
    case (Cons x rest)
    with Cons.prems have "x = (s', g)" and "n = 0" by (auto split: prod.splits)
    with Cons show ?thesis by simp
  qed
qed

lemma search_sound:
  "search r s = Some g \<Longrightarrow> \<exists>w. sem r Map.empty w g"
proof -
  assume "search r s = Some g"
  then obtain n s' where "search_at r s = Some (n, s', g)"
    by (auto simp: search_def)
  from search_at_sound[OF this] rm_sound show ?thesis by blast
qed

lemma py_float_literal:
  assumes U: "ucd_signs U"
    and m: "m = [] \<or> m = [0x2D]"
    and d: "d \<noteq> []" "list_all (is_decimal U) d"
    and p: "p = [] \<or> p = [0x2E]"
    and f: "list_all (is_decimal U) f" "p = [] \<longrightarrow> f = []"
  shows "\<exists>v. py_float U (m @ d @ p @ f) = Some v"
proof -
  from d have hd: "is_decimal U (hd d)" by (cases d) auto
  with U have hd45: "hd d \<noteq> 0x2D" by (auto simp: ucd_signs_def)
  from d have dall: "\<forall>x\<in>set d. is_decimal U x" by (simp add: list_all_iff)
  from f have fall: "\<forall>x\<in>set f. is_decimal U x" by (simp add: list_all_iff)
  have neg: "(m @ d @ p @ f \<noteq> [] \<and> hd (m @ d @ p @ f) = 0x2D) = (m = [0x2D])"
    using m d hd45 by auto
  have body: "(if m = [0x2D] then tl (m @ d @ p @ f) else m @ d @ p @ f) = d @ p @ f"
    using m by auto
  have tw: "takeWhile (is_decimal U) (d @ p @ f) = d @ (if p = [] then f else [])"
    using p U dall fall f by (auto simp: takeWhile_append2 ucd_signs_def)
  have dw: "dropWhile (is_decimal U) (d @ p @ f) = (if p = [] then [] else p @ f)"
    using p U dall fall f by (auto simp: dropWhile_append2 ucd_signs_def)
  show ?thesis
    unfolding py_float_def Let_def neg body tw dw
    using p d f by (auto simp: list_all_iff)
qed

lemma sem_unsigned_number:
  assumes "sem (unsigned_number U) g t g'"
  shows "g' = g \<and> (\<exists>d p f. t = d @ p @ f \<and> d \<noteq> [] \<and> list_all (is_decimal U) d
            \<and> (p = [] \<or> p = [0x2E]) \<and> list_all (is_decimal U) f)"
  using assms by (auto simp: unsigned_number_def seq_def chr_def)

lemma sem_unsigned_number_float:
  assumes U: "ucd_signs U" and sem: "sem (unsigned_number U) g t g'"
    and m: "m = [] \<or> m = [0x2D]"
  shows "g' = g \<and> (\<exists>v. py_float U (m @ t) = Some v)"
proof -
  from sem_unsigned_number[OF sem] obtain d p f where
    g: "g' = g" and t: "t = d @ p @ f" and d: "d \<noteq> []" "list_all (is_decimal U) d"
    and p: "p = [] \<or> p = [0x2E]" and f: "list_all (is_decimal U) f"
    by blast
  show ?thesis
  proof (cases "p = []")
    case True
    have "\<exists>v. py_float U (m @ (d @ f) @ [] @ []) = Some v"
      by (rule py_float_literal[OF U m]) (use d f in auto)
    with True t g show ?thesis by simp
  next
    case False
    have "\<exists>v. py_float U (m @ d @ p @ f) = Some v"
      by (rule py_float_literal[OF U m d p f(1)]) (use False in simp)
    with t g show ?thesis by simp
  qed
qed

lemma sem_number_float:
  assumes U: "ucd_signs U" and sem: "sem (number U) g t g'"
  shows "g' = g \<and> (\<exists>v. py_float U t = Some v)"
proof -
  from sem obtain m u g1 where t: "t = m @ u" and m: "sem (Opt (chr 0x2D)) g m g1"
    and u: "sem (unsigned_number U) g1 u g'"
    by (auto simp: number_def)
  from m have m': "m = [] \<or> m = [0x2D]" and g1: "g1 = g" by (auto simp: chr_def)
  from sem_unsigned_number_float[OF U u m'] t g1 show ?thesis by simp
qed

lemma py_float_nonempty: "py_float U t = Some v \<Longrightarrow> t \<noteq> []"
  by (auto simp: py_float_def)

text \<open>
  A coordinate substring with two elements, \<^verbatim>\<open>(a,b)\<close>, and with three, \<^verbatim>\<open>(a,b,c)\<close>: an
  optional opening parenthesis, the numbers separated by commas with optional blanks
  around, an optional closing parenthesis; \<open>c\<close> is the coordinate it denotes.
\<close>

definition reads_pair :: "ucd \<Rightarrow> ustring \<Rightarrow> coordinate \<Rightarrow> bool" where
  "reads_pair U w c =
     (\<exists>l w1 a w2 w3 b w4 r x y.
        w = l @ w1 @ a @ w2 @ [0x2C] @ w3 @ b @ w4 @ r
        \<and> (l = [] \<or> l = [0x28]) \<and> (r = [] \<or> r = [0x29])
        \<and> list_all (is_space U) (w1 @ w2 @ w3 @ w4)
        \<and> py_float U a = Some x \<and> py_float U b = Some y \<and> c = (x, y, 0))"

definition reads_triple :: "ucd \<Rightarrow> ustring \<Rightarrow> coordinate \<Rightarrow> bool" where
  "reads_triple U w c =
     (\<exists>l w1 a w2 w3 b w4 w5 d w6 r x y z.
        w = l @ w1 @ a @ w2 @ [0x2C] @ w3 @ b @ w4 @ [0x2C] @ w5 @ d @ w6 @ r
        \<and> (l = [] \<or> l = [0x28]) \<and> (r = [] \<or> r = [0x29])
        \<and> list_all (is_space U) (w1 @ w2 @ w3 @ w4 @ w5 @ w6)
        \<and> py_float U a = Some x \<and> py_float U b = Some y \<and> py_float U d = Some z
        \<and> c = (x, y, z))"

lemma sem_seq_ConsE:
  assumes "sem (seq (r # rs)) g w g'"
  obtains u v g1 where "w = u @ v" "sem r g u g1" "sem (seq rs) g1 v g'"
  using assms by (auto simp: seq_def)

lemma sem_seq_Nil: "sem (seq []) g w g' \<Longrightarrow> w = [] \<and> g' = g"
  by (simp add: seq_def)

lemma sem_opt_chr: "sem (Opt (chr c)) g w g' \<Longrightarrow> (w = [] \<or> w = [c]) \<and> g' = g"
  by (auto simp: chr_def)

lemma sem_chr: "sem (chr c) g w g' \<Longrightarrow> w = [c] \<and> g' = g"
  by (auto simp: chr_def)

lemma sem_grp_number:
  assumes "ucd_signs U" "sem (Grp n (number U)) g t g'"
  shows "g' = g(n \<mapsto> t) \<and> (\<exists>v. py_float U t = Some v)"
  using assms sem_number_float by fastforce

lemma sem_coordinate:
  assumes U: "ucd_signs U" and sem: "sem (coordinate_pattern U) Map.empty w g"
  shows "\<exists>c. coordinate_of U \<lparr>m_start = i, m_end = j, m_groups = g\<rparr> = Inr c
            \<and> (reads_pair U w c \<or> reads_triple U w c)"
proof -
  from sem[unfolded coordinate_pattern_def] obtain l t1 g1 where
    1: "w = l @ t1" "sem (Opt (chr 0x28)) Map.empty l g1" and r1: "sem (seq
          [Star (is_space U), Grp 1 (number U),
          Star (is_space U), chr 0x2C, Star (is_space U), Grp 2 (number U),
          Opt (seq [Star (is_space U), chr 0x2C, Star (is_space U), Grp 3 (number U)]),
          Star (is_space U), Opt (chr 0x29)]) g1 t1 g"
    by (rule sem_seq_ConsE)
  from r1 obtain w1 t2 g2 where 2: "t1 = w1 @ t2" "sem (Star (is_space U)) g1 w1 g2"
    and r2: "sem (seq [Grp 1 (number U),
          Star (is_space U), chr 0x2C, Star (is_space U), Grp 2 (number U),
          Opt (seq [Star (is_space U), chr 0x2C, Star (is_space U), Grp 3 (number U)]),
          Star (is_space U), Opt (chr 0x29)]) g2 t2 g"
    by (rule sem_seq_ConsE)
  from r2 obtain a t3 g3 where 3: "t2 = a @ t3" "sem (Grp 1 (number U)) g2 a g3"
    and r3: "sem (seq [Star (is_space U), chr 0x2C, Star (is_space U), Grp 2 (number U),
          Opt (seq [Star (is_space U), chr 0x2C, Star (is_space U), Grp 3 (number U)]),
          Star (is_space U), Opt (chr 0x29)]) g3 t3 g"
    by (rule sem_seq_ConsE)
  from r3 obtain w2 t4 g4 where 4: "t3 = w2 @ t4" "sem (Star (is_space U)) g3 w2 g4"
    and r4: "sem (seq [chr 0x2C, Star (is_space U), Grp 2 (number U),
          Opt (seq [Star (is_space U), chr 0x2C, Star (is_space U), Grp 3 (number U)]),
          Star (is_space U), Opt (chr 0x29)]) g4 t4 g"
    by (rule sem_seq_ConsE)
  from r4 obtain cm t5 g5 where 5: "t4 = cm @ t5" "sem (chr 0x2C) g4 cm g5"
    and r5: "sem (seq [Star (is_space U), Grp 2 (number U),
          Opt (seq [Star (is_space U), chr 0x2C, Star (is_space U), Grp 3 (number U)]),
          Star (is_space U), Opt (chr 0x29)]) g5 t5 g"
    by (rule sem_seq_ConsE)
  from r5 obtain w3 t6 g6 where 6: "t5 = w3 @ t6" "sem (Star (is_space U)) g5 w3 g6"
    and r6: "sem (seq [Grp 2 (number U),
          Opt (seq [Star (is_space U), chr 0x2C, Star (is_space U), Grp 3 (number U)]),
          Star (is_space U), Opt (chr 0x29)]) g6 t6 g"
    by (rule sem_seq_ConsE)
  from r6 obtain b t7 g7 where 7: "t6 = b @ t7" "sem (Grp 2 (number U)) g6 b g7"
    and r7: "sem (seq [Opt (seq [Star (is_space U), chr 0x2C, Star (is_space U), Grp 3 (number U)]),
          Star (is_space U), Opt (chr 0x29)]) g7 t7 g"
    by (rule sem_seq_ConsE)
  from r7 obtain tl t8 g8 where 8: "t7 = tl @ t8"
      "sem (Opt (seq [Star (is_space U), chr 0x2C, Star (is_space U), Grp 3 (number U)])) g7 tl g8"
    and r8: "sem (seq [Star (is_space U), Opt (chr 0x29)]) g8 t8 g"
    by (rule sem_seq_ConsE)
  from r8 obtain w4 t9 g9 where 9: "t8 = w4 @ t9" "sem (Star (is_space U)) g8 w4 g9"
    and r9: "sem (seq [Opt (chr 0x29)]) g9 t9 g"
    by (rule sem_seq_ConsE)
  from r9 obtain r t10 g10 where 10: "t9 = r @ t10" "sem (Opt (chr 0x29)) g9 r g10"
    and r10: "sem (seq []) g10 t10 g"
    by (rule sem_seq_ConsE)
  from sem_seq_Nil[OF r10] sem_opt_chr[OF 10(2)] 10(1) 9
  have r: "r = [] \<or> r = [0x29]" and t8: "t8 = w4 @ r" and w4: "list_all (is_space U) w4"
    and g8: "g = g8"
    by auto
  from sem_opt_chr[OF 1(2)] have l: "l = [] \<or> l = [0x28]" and g1: "g1 = Map.empty" by auto
  from 2(2) g1 have w1: "list_all (is_space U) w1" and g2: "g2 = Map.empty" by auto
  from sem_grp_number[OF U 3(2)] g2 obtain x where g3: "g3 = [1 \<mapsto> a]" and x: "py_float U a = Some x"
    by auto
  from 4(2) have w2: "list_all (is_space U) w2" and g4: "g4 = g3" by auto
  from sem_chr[OF 5(2)] have cm: "cm = [0x2C]" and g5: "g5 = g4" by auto
  from 6(2) have w3: "list_all (is_space U) w3" and g6: "g6 = g5" by auto
  from sem_grp_number[OF U 7(2)] obtain y where g7: "g7 = g6(2 \<mapsto> b)" and y: "py_float U b = Some y"
    by auto
  have w: "w = l @ w1 @ a @ w2 @ [0x2C] @ w3 @ b @ tl @ w4 @ r"
    using 1(1) 2(1) 3(1) 4(1) 5(1) 6(1) 7(1) 8(1) t8 cm by simp
  from 8(2) consider (two) "tl = []" "g8 = g7"
    | (three) "sem (seq [Star (is_space U), chr 0x2C, Star (is_space U), Grp 3 (number U)]) g7 tl g8"
    by auto
  then show ?thesis
  proof cases
    case two
    with g8 g7 g6 g5 g4 g3 x y
    have "coordinate_of U \<lparr>m_start = i, m_end = j, m_groups = g\<rparr> = Inr (x, y, 0)"
      by (simp add: coordinate_of_def group_float_def bindE_def)
    moreover have "reads_pair U w (x, y, 0)"
      unfolding reads_pair_def
    proof (intro exI conjI)
      show "w = l @ w1 @ a @ w2 @ [0x2C] @ w3 @ b @ w4 @ r" using w two by simp
      show "l = [] \<or> l = [0x28]" by fact
      show "r = [] \<or> r = [0x29]" by fact
      show "list_all (is_space U) (w1 @ w2 @ w3 @ w4)" using w1 w2 w3 w4 by simp
      show "py_float U a = Some x" by fact
      show "py_float U b = Some y" by fact
      show "(x, y, 0) = (x, y, 0)" by simp
    qed
    ultimately show ?thesis by blast
  next
    case three
    from three obtain w5 u1 h1 where a1: "tl = w5 @ u1" "sem (Star (is_space U)) g7 w5 h1"
      and s1: "sem (seq [chr 0x2C, Star (is_space U), Grp 3 (number U)]) h1 u1 g8"
      by (rule sem_seq_ConsE)
    from s1 obtain c2 u2 h2 where a2: "u1 = c2 @ u2" "sem (chr 0x2C) h1 c2 h2"
      and s2: "sem (seq [Star (is_space U), Grp 3 (number U)]) h2 u2 g8"
      by (rule sem_seq_ConsE)
    from s2 obtain w6 u3 h3 where a3: "u2 = w6 @ u3" "sem (Star (is_space U)) h2 w6 h3"
      and s3: "sem (seq [Grp 3 (number U)]) h3 u3 g8"
      by (rule sem_seq_ConsE)
    from s3 obtain d u4 h4 where a4: "u3 = d @ u4" "sem (Grp 3 (number U)) h3 d h4"
      and s4: "sem (seq []) h4 u4 g8"
      by (rule sem_seq_ConsE)
    from sem_grp_number[OF U a4(2)] obtain z where h4: "h4 = h3(3 \<mapsto> d)" and z: "py_float U d = Some z"
      by auto
    from py_float_nonempty[OF z] have dne: "d \<noteq> []" .
    from a1(2) a2(2) a3(2) sem_seq_Nil[OF s4] sem_chr[OF a2(2)] h4
    have gg: "g8 = g7(3 \<mapsto> d)" and w5: "list_all (is_space U) w5" and w6: "list_all (is_space U) w6"
      and c2: "c2 = [0x2C]" and u4: "u4 = []"
      by auto
    have tl: "tl = w5 @ [0x2C] @ w6 @ d" using a1(1) a2(1) a3(1) a4(1) c2 u4 by simp
    from gg g8 g7 g6 g5 g4 g3 x y z dne
    have "coordinate_of U \<lparr>m_start = i, m_end = j, m_groups = g\<rparr> = Inr (x, y, z)"
      by (simp add: coordinate_of_def group_float_def bindE_def)
    moreover have "reads_triple U w (x, y, z)"
      unfolding reads_triple_def
    proof (intro exI conjI)
      show "w = l @ w1 @ a @ w2 @ [0x2C] @ w3 @ b @ w5 @ [0x2C] @ w6 @ d @ w4 @ r"
        using w tl by simp
      show "l = [] \<or> l = [0x28]" by fact
      show "r = [] \<or> r = [0x29]" by fact
      show "list_all (is_space U) (w1 @ w2 @ w3 @ w5 @ w6 @ w4)"
        using w1 w2 w3 w4 w5 w6 by simp
      show "py_float U a = Some x" by fact
      show "py_float U b = Some y" by fact
      show "py_float U d = Some z" by fact
      show "(x, y, z) = (x, y, z)" by simp
    qed
    ultimately show ?thesis by blast
  qed
qed

text \<open>
  \<open>read_in_order U text lo spans cs\<close>: the coordinates \<open>cs\<close> are read, one by one, from
  the substrings of \<open>text\<close> at \<open>spans\<close> (start and end offsets), which follow each other
  from left to right without overlap, starting at or after \<open>lo\<close>.
\<close>

fun read_in_order :: "ucd \<Rightarrow> ustring \<Rightarrow> nat \<Rightarrow> (nat \<times> nat) list \<Rightarrow> coordinate list \<Rightarrow> bool" where
  "read_in_order U text lo [] [] = True"
| "read_in_order U text lo ((i, j) # spans) (c # cs) =
     (lo \<le> i \<and> i < j \<and> j \<le> length text
      \<and> (reads_pair U (take (j - i) (drop i text)) c \<or> reads_triple U (take (j - i) (drop i text)) c)
      \<and> read_in_order U text j spans cs)"
| "read_in_order U text lo _ _ = False"

lemma reads_nonempty: "reads_pair U w c \<or> reads_triple U w c \<Longrightarrow> w \<noteq> []"
  by (auto simp: reads_pair_def reads_triple_def)

lemma finditer_from_coordinates:
  assumes U: "ucd_signs U"
  shows "length pre = off \<Longrightarrow>
         \<exists>cs spans. collect (coordinate_of U) (finditer_from (coordinate_pattern U) off s) = Inr cs
                    \<and> read_in_order U (pre @ s) off spans cs"
proof (induction "length s" arbitrary: s off pre rule: less_induct)
  case less
  let ?r = "coordinate_pattern U"
  show ?case
  proof (cases "search_at ?r s")
    case None
    then have "collect (coordinate_of U) (finditer_from ?r off s) = Inr []"
      by (subst finditer_from.simps) simp
    moreover have "read_in_order U (pre @ s) off [] []" by simp
    ultimately show ?thesis by blast
  next
    case (Some x)
    then obtain n s' g where found: "search_at ?r s = Some (n, s', g)" by (cases x) auto
    from search_at_sound[OF found] have n: "n \<le> length s"
      and m: "(s', g) \<in> set (rm ?r (drop n s, Map.empty))" by auto
    from rm_sound[OF m] obtain w where w: "drop n s = w @ s'" and sem: "sem ?r Map.empty w g"
      by blast
    let ?j = "off + (length s - length s')"
    from sem_coordinate[OF U sem, of "off + n" ?j] obtain c where
      c: "coordinate_of U \<lparr>m_start = off + n, m_end = ?j, m_groups = g\<rparr> = Inr c"
      and reads: "reads_pair U w c \<or> reads_triple U w c"
      by blast
    from reads_nonempty[OF reads] have wne: "w \<noteq> []" .
    from w have len: "length s - n = length w + length s'"
      by (metis length_append length_drop)
    with n wne have lt: "n < length s - length s'" and shorter: "length s' < length s"
      and j: "length s - length s' = n + length w"
      by (cases w; simp)+
    have s_split: "s = take (n + length w) s @ s'"
    proof -
      have "drop (n + length w) s = drop (length w) (drop n s)" by (simp add: add.commute)
      also have "\<dots> = s'" using w by simp
      finally show ?thesis by (metis append_take_drop_id)
    qed
    have "length (pre @ take (n + length w) s) = ?j"
      using less.prems j n len by simp
    from less.hyps[OF shorter this] obtain cs spans where
      rest: "collect (coordinate_of U) (finditer_from ?r ?j s') = Inr cs"
      and ord: "read_in_order U ((pre @ take (n + length w) s) @ s') ?j spans cs"
      by blast
    from s_split have whole: "(pre @ take (n + length w) s) @ s' = pre @ s" by simp
    have "finditer_from ?r off s = \<lparr>m_start = off + n, m_end = ?j, m_groups = g\<rparr> # finditer_from ?r ?j s'"
      using found lt by (subst finditer_from.simps) simp
    with c rest have res: "collect (coordinate_of U) (finditer_from ?r off s) = Inr (c # cs)"
      by (simp add: bindE_def)
    have sub: "take (?j - (off + n)) (drop (off + n) (pre @ s)) = w"
      using less.prems j w by simp
    have "read_in_order U (pre @ s) off ((off + n, ?j) # spans) (c # cs)"
      using ord whole sub reads wne j n len less.prems by simp
    with res show ?thesis by blast
  qed
qed

section \<open>Coordinate extraction\<close>

lemma extract_coordinates_reads:
  assumes "ucd_signs U"
  shows "\<exists>cs spans. extract_coordinates U txt = Inr cs \<and> read_in_order U txt 0 spans cs"
proof -
  have "length ([]::ustring) = 0" by simp
  from finditer_from_coordinates[OF assms this] show ?thesis
    by (simp add: extract_coordinates_def finditer_def)
qed



lemmas pattern_defs =
  coordinate_pattern_def number_def unsigned_number_def seq_def alts_def chr_def one_of_def
  lit_def lit_ci_def chr_ci_def labelled_def quote_def lazy_any_def not_decimal_def
  not_word_def is_word_def radius_pattern_def start_angle_pattern_def end_angle_pattern_def
  width_pattern_def height_pattern_def rotation_pattern_def scale_pattern_def
  wall_width_pattern_def text_pattern_def quote_pattern_def hatch_label_def
  pattern_patterns_def path_pattern_def color_pattern_def ascii_def

lemmas eval_defs =
  extract_coordinates_def extract_numbers_def finditer_def finditer_from.simps findall_def search_def
  search_float_def coordinate_of_def group_float_def float_of_def py_float_def
  digits_value_def bindE_def ucd_cjk_def ascii_lower_def ascii_upper_def strip_def

lemma ucd_cjk_signs: "ucd_signs ucd_cjk"
  by (simp add: ucd_signs_def ucd_cjk_def)



section \<open>Builders with a structural minimum\<close>

text \<open>\<open>sets_group n r\<close>: every match of \<open>r\<close> assigns group \<open>n\<close>.\<close>

fun sets_group :: "nat \<Rightarrow> re \<Rightarrow> bool" where
  "sets_group n (Seq a b) = (sets_group n a \<or> sets_group n b)"
| "sets_group n (Alt a b) = (sets_group n a \<and> sets_group n b)"
| "sets_group n (Grp m a) = (m = n \<or> sets_group n a)"
| "sets_group n _ = False"

lemma sem_sets_group:
  "sem r g w g' \<Longrightarrow> sets_group n r \<or> g n \<noteq> None \<Longrightarrow> g' n \<noteq> None"
proof (induction r arbitrary: g w g')
  case (Seq a b)
  from Seq.prems(1) obtain u v g1 where a: "sem a g u g1" and b: "sem b g1 v g'" by auto
  show ?case
  proof (cases "sets_group n a \<or> g n \<noteq> None")
    case True
    from Seq.IH(1)[OF a True] have "g1 n \<noteq> None" .
    then show ?thesis using Seq.IH(2)[OF b] by blast
  next
    case False
    with Seq.prems(2) have "sets_group n b" by simp
    then show ?thesis using Seq.IH(2)[OF b] by blast
  qed
next
  case (Alt a b)
  then show ?case by auto
next
  case (Opt a)
  then show ?case by auto
next
  case (Grp m a)
  from Grp.prems(1) obtain g1 where a: "sem a g w g1" and g': "g' = g1(m \<mapsto> w)" by auto
  show ?case
  proof (cases "m = n")
    case True
    with g' show ?thesis by simp
  next
    case False
    with Grp.prems(2) have "sets_group n a \<or> g n \<noteq> None" by simp
    from Grp.IH[OF a this] g' False show ?thesis by simp
  qed
qed auto

lemma pattern_name_of_total:
  "set patterns \<subseteq> set (pattern_patterns U) \<Longrightarrow>
   \<exists>name. pattern_name_of U command pattern_name patterns = Inr name"
proof (induction patterns)
  case Nil
  then show ?case by simp
next
  case (Cons p ps)
  show ?case
  proof (cases "search p command")
    case None
    with Cons show ?thesis by simp
  next
    case (Some g)
    from search_sound[OF Some] obtain w where sem: "sem p Map.empty w g" by blast
    from Cons.prems have "sets_group 1 p"
      by (auto simp: pattern_patterns_def seq_def)
    with sem_sets_group[OF sem, of 1] have "g 1 \<noteq> None" by blast
    with Some show ?thesis by auto
  qed
qed

lemma sem_labelled:
  assumes "sem (labelled U labels num) Map.empty w g"
  shows "\<exists>g1 t g2. sem num g1 t g2 \<and> g = g2(1 \<mapsto> t)"
proof -
  from assms[unfolded labelled_def] obtain u1 v1 g1 where
    "sem (seq [LazyStar (not_decimal U), Grp 1 num]) g1 v1 g"
    by (rule sem_seq_ConsE)
  then obtain u2 v2 g2 where "sem (seq [Grp 1 num]) g2 v2 g"
    by (rule sem_seq_ConsE)
  then obtain t v3 g3 where "sem (Grp 1 num) g2 t g3" and "sem (seq []) g3 v3 g"
    by (rule sem_seq_ConsE)
  with sem_seq_Nil[of g3 v3 g] show ?thesis by auto
qed

lemma search_float_labelled:
  assumes U: "ucd_signs U" and num: "num = number U \<or> num = unsigned_number U"
  shows "\<exists>v. search_float U (labelled U labels num) command = Inr v"
proof (cases "search (labelled U labels num) command")
  case None
  then show ?thesis by (simp add: search_float_def)
next
  case (Some g)
  from search_sound[OF Some] obtain w where "sem (labelled U labels num) Map.empty w g" by blast
  from sem_labelled[OF this] obtain g1 t g2 where t: "sem num g1 t g2" and g: "g = g2(1 \<mapsto> t)"
    by blast
  from num have "\<exists>v. py_float U t = Some v"
  proof
    assume "num = number U"
    with t sem_number_float[OF U] show ?thesis by blast
  next
    assume "num = unsigned_number U"
    with t sem_unsigned_number_float[OF U, of g1 t g2 "[]"] show ?thesis by auto
  qed
  with Some g show ?thesis by (auto simp: search_float_def group_float_def bindE_def)
qed


text \<open>
  C5. Provided the minus sign and the full stop are not decimal digits, the hatch
  builder never raises; it returns the error with the message of line 577 if and only
  if fewer than 3 coordinates are extracted, and otherwise a \<^verbatim>\<open>draw_hatch\<close> descriptor
  whose points are all the extracted coordinates.
\<close>

theorem parse_draw_hatch_needs_three:
  assumes "ucd_signs U"
  shows "\<exists>coordinates.
           extract_coordinates U command = Inr coordinates
           \<and> (parse_draw_hatch U command
                = Inr (Error [0x7ED8, 0x5236, 0x586B, 0x5145, 0x9700, 0x8981, 0x81F3, 0x5C11, 0x33,
                              0x4E2A, 0x70B9, 0x6765, 0x5B9A, 0x4E49, 0x8FB9, 0x754C])
              \<longleftrightarrow> length coordinates < 3)
           \<and> (3 \<le> length coordinates \<longrightarrow>
                (\<exists>pattern_name scale.
                   parse_draw_hatch U command = Inr (DrawHatch coordinates pattern_name scale)))"
proof -
  from extract_coordinates_reads[OF assms] obtain cs where
    cs: "extract_coordinates U command = Inr cs" by blast
  from pattern_name_of_total[of "pattern_patterns U" U command "ascii ''SOLID''"] obtain name where
    name: "pattern_name_of U command (ascii ''SOLID'') (pattern_patterns U) = Inr name" by auto
  from search_float_labelled[OF assms, of "unsigned_number U"] obtain v where
    v: "search_float U (scale_pattern U) command = Inr v"
    by (auto simp: scale_pattern_def)
  from cs name v show ?thesis
    by (simp add: parse_draw_hatch_def bindE_def Let_def)
qed


definition hatch_example :: ustring where
  "hatch_example =
     [0x753B, 0x586B, 0x5145, 0x20, 0x28, 0x30, 0x2C, 0x30, 0x29, 0x20, 0x28, 0x31, 0x30, 0x2C,
      0x30, 0x29, 0x20, 0x28, 0x31, 0x30, 0x2C, 0x31, 0x30, 0x29]"

lemma hatch_example_coordinates:
  "extract_coordinates ucd_cjk hatch_example = Inr [(0, 0, 0), (10, 0, 0), (10, 10, 0)]"
  by (simp add: hatch_example_def pattern_defs eval_defs)

lemma hatch_example_builder:
  "parse_draw_hatch ucd_cjk hatch_example
   = Inr (DrawHatch [(0, 0, 0), (10, 0, 0), (10, 10, 0)] (ascii ''SOLID'') 1)"
  by (simp add: parse_draw_hatch_def hatch_example_def pattern_defs eval_defs)

theorem parse_draw_hatch_needs_three_witness:
  "ucd_signs ucd_cjk
   \<and> extract_coordinates ucd_cjk hatch_example = Inr [(0, 0, 0), (10, 0, 0), (10, 10, 0)]
   \<and> (3::nat) \<le> length [(0, 0, 0), (10, 0, 0), (10, 10, 0) :: coordinate]
   \<and> (\<exists>pattern_name scale.
         parse_draw_hatch ucd_cjk hatch_example
         = Inr (DrawHatch [(0, 0, 0), (10, 0, 0), (10, 10, 0)] pattern_name scale))"
  using parse_draw_hatch_needs_three[OF ucd_cjk_signs, of hatch_example]
    ucd_cjk_signs hatch_example_coordinates
  by auto

text \<open>
  C6. Provided the minus sign and the full stop are not decimal digits, the polyline
  builder never raises; it returns the error with the message of line 483 if and only
  if fewer than 2 coordinates are extracted, and otherwise a \<^verbatim>\<open>draw_polyline\<close>
  descriptor whose points are all the extracted coordinates, in the order of
  \<^verbatim>\<open>_extract_coordinates\<close>, and whose flag \<^verbatim>\<open>closed\<close> tells whether the text contains
  U+95ED U+5408 or U+5C01 U+95ED.
\<close>

theorem parse_draw_polyline_needs_two:
  assumes "ucd_signs U"
  shows "\<exists>coordinates.
           extract_coordinates U command = Inr coordinates
           \<and> (parse_draw_polyline U command
                = Inr (Error [0x7ED8, 0x5236, 0x591A, 0x6BB5, 0x7EBF, 0x9700, 0x8981, 0x81F3, 0x5C11,
                              0x4E24, 0x4E2A, 0x5750, 0x6807, 0x70B9])
              \<longleftrightarrow> length coordinates < 2)
           \<and> (2 \<le> length coordinates \<longrightarrow>
                parse_draw_polyline U command
                = Inr (DrawPolyline coordinates
                        (contains [0x95ED, 0x5408] command \<or> contains [0x5C01, 0x95ED] command)))"
proof -
  from extract_coordinates_reads[OF assms] obtain cs where
    cs: "extract_coordinates U command = Inr cs" by blast
  then show ?thesis
    by (simp add: parse_draw_polyline_def bindE_def Let_def)
qed

definition polyline_example :: ustring where
  "polyline_example =
     [0x95ED, 0x5408, 0x591A, 0x6BB5, 0x7EBF, 0x20, 0x28, 0x30, 0x2C, 0x30, 0x29, 0x20, 0x28,
      0x35, 0x2C, 0x35, 0x29]"

lemma polyline_example_coordinates:
  "extract_coordinates ucd_cjk polyline_example = Inr [(0, 0, 0), (5, 5, 0)]"
  by (simp add: polyline_example_def pattern_defs eval_defs)

theorem parse_draw_polyline_needs_two_witness:
  "ucd_signs ucd_cjk
   \<and> extract_coordinates ucd_cjk polyline_example = Inr [(0, 0, 0), (5, 5, 0)]
   \<and> (2::nat) \<le> length [(0, 0, 0), (5, 5, 0) :: coordinate]
   \<and> parse_draw_polyline ucd_cjk polyline_example
       = Inr (DrawPolyline [(0, 0, 0), (5, 5, 0)] True)"
proof -
  have "contains [0x95ED, 0x5408] polyline_example"
    by (simp add: polyline_example_def)
  with parse_draw_polyline_needs_two[OF ucd_cjk_signs, of polyline_example]
    ucd_cjk_signs polyline_example_coordinates
  show ?thesis by auto
qed

section \<open>Classifier precedence\<close>

text \<open>\<open>contains\<close> is the substring relation.\<close>

lemma starts_with_iff: "starts_with needle hay \<longleftrightarrow> (\<exists>q. hay = needle @ q)"
  by (induction needle hay rule: starts_with.induct) auto

lemma contains_iff: "contains needle hay \<longleftrightarrow> (\<exists>p q. hay = p @ needle @ q)"
proof (induction hay)
  case Nil
  then show ?case by auto
next
  case (Cons d ds)
  show ?case
  proof
    assume "contains needle (d # ds)"
    then consider "starts_with needle (d # ds)" | "contains needle ds" by auto
    then show "\<exists>p q. d # ds = p @ needle @ q"
    proof cases
      case 1
      then obtain q where "d # ds = [] @ needle @ q" by (auto simp: starts_with_iff)
      then show ?thesis by blast
    next
      case 2
      with Cons.IH obtain p q where "ds = p @ needle @ q" by blast
      then have "d # ds = (d # p) @ needle @ q" by simp
      then show ?thesis by blast
    qed
  next
    assume "\<exists>p q. d # ds = p @ needle @ q"
    then obtain p q where pq: "d # ds = p @ needle @ q" by blast
    show "contains needle (d # ds)"
    proof (cases p)
      case Nil
      with pq have "starts_with needle (d # ds)" by (auto simp: starts_with_iff)
      then show ?thesis by simp
    next
      case (Cons e p')
      with pq have "ds = p' @ needle @ q" by simp
      with Cons.IH have "contains needle ds" by blast
      then show ?thesis by simp
    qed
  qed
qed


text \<open>
  The shape tags the classifier pairs with a \<^verbatim>\<open>draw\<close> action, the intent of each pair,
  and the first entry of the shape table, in table order, whose phrase occurs in the
  command and whose tag is one of these.
\<close>

definition draw_shapes :: "string list" where
  "draw_shapes =
     [''line'', ''circle'', ''arc'', ''rectangle'', ''square'', ''polyline'', ''text'', ''dimension'']"

definition intent_of :: "string \<Rightarrow> string" where
  "intent_of shape_type =
     (if shape_type = ''line'' then ''draw_line''
      else if shape_type = ''circle'' then ''draw_circle''
      else if shape_type = ''arc'' then ''draw_arc''
      else if shape_type = ''rectangle'' \<or> shape_type = ''square'' then ''draw_rectangle''
      else if shape_type = ''polyline'' then ''draw_polyline''
      else if shape_type = ''text'' then ''draw_text''
      else ''add_dimension'')"

definition first_shape :: "(ustring \<times> string) list \<Rightarrow> ustring \<Rightarrow> (ustring \<times> string) option" where
  "first_shape shapes command =
     find (\<lambda>(shape, shape_type). contains shape command \<and> shape_type \<in> set draw_shapes) shapes"

lemma shape_loop_draw_Cons:
  "shape_loop command ''draw'' ((shape, shape_type) # rest) =
     (if contains shape command \<and> shape_type \<in> set draw_shapes
      then Some (intent_of shape_type)
      else shape_loop command ''draw'' rest)"
  by (simp add: draw_shapes_def intent_of_def)

lemma shape_loop_draw:
  "shape_loop command ''draw'' shapes =
     map_option (\<lambda>(shape, shape_type). intent_of shape_type) (first_shape shapes command)"
proof (induction shapes)
  case Nil
  then show ?case by (simp add: first_shape_def)
next
  case (Cons x shapes)
  obtain shape shape_type where x: "x = (shape, shape_type)" by (cases x)
  show ?case
    unfolding x shape_loop_draw_Cons using Cons.IH
    by (simp add: first_shape_def)
qed

lemma shape_loop_other:
  "action_type \<noteq> ''draw'' \<Longrightarrow> shape_loop command action_type shapes = None"
  by (induction shapes) auto

lemma action_loop_draw:
  "action_loop shapes command actions =
     (if \<exists>action. (action, ''draw'') \<in> set actions \<and> contains action command
      then shape_loop command ''draw'' shapes else None)"
proof (induction actions)
  case Nil
  then show ?case by simp
next
  case (Cons a actions)
  obtain action action_type where a: "a = (action, action_type)" by (cases a)
  show ?case
  proof (cases "contains action command \<and> action_type = ''draw''")
    case True
    then show ?thesis using Cons a by (auto split: option.splits)
  next
    case False
    then have "action_loop shapes command (a # actions) = action_loop shapes command actions"
      using a shape_loop_other[of action_type command shapes] by auto
    moreover from False a have
      "(\<exists>x. (x, ''draw'') \<in> set (a # actions) \<and> contains x command)
       = (\<exists>x. (x, ''draw'') \<in> set actions \<and> contains x command)"
      by auto
    ultimately show ?thesis using Cons by simp
  qed
qed






text \<open>The rules never give an intent outside this list.\<close>

lemma classify_range:
  "classify self command \<in> set [''draw_line'', ''draw_circle'', ''draw_arc'', ''draw_rectangle'',
     ''draw_polyline'', ''draw_text'', ''add_dimension'', ''create_layer'', ''save'', ''unknown'']"
proof (cases "action_loop (shape_keywords self) command (action_keywords self)")
  case None
  then show ?thesis by (simp add: classify_def)
next
  case (Some t)
  then have "shape_loop command ''draw'' (shape_keywords self) = Some t"
    by (simp add: action_loop_draw split: if_splits)
  then obtain x where "t = intent_of x"
    by (auto simp: shape_loop_draw)
  with Some show ?thesis by (simp add: classify_def intent_of_def)
qed

section \<open>The object built by the constructor\<close>

text \<open>
  C1 (the top-level interpretation never raises and always returns a descriptor). On
  the object that \<^verbatim>\<open>__init__\<close> builds, the code does the opposite: \<^verbatim>\<open>parse_command\<close> and
  \<^verbatim>\<open>process_command\<close> raise \<^verbatim>\<open>AttributeError\<close> for every command text, because
  \<^verbatim>\<open>_identify_command_type\<close> reads \<^verbatim>\<open>self.domain_keywords\<close>, which is never assigned; no
  descriptor is returned for any input.
\<close>

theorem parse_command_raises:
  "parse_command U cfg init command = Inl AttributeError
   \<and> process_command U cfg init command = Inl AttributeError"
  by (simp add: process_command_def parse_command_def identify_command_type_def
      init_domain_keywords bindE_def)

section \<open>The dispatcher and concrete commands\<close>

lemma normalize_cjk:
  "strip ucd_cjk (str_lower ucd_cjk [0x4FDD, 0x5B58]) = [0x4FDD, 0x5B58]"
  "strip ucd_cjk (str_lower ucd_cjk [0x6807, 0x6CE8]) = [0x6807, 0x6CE8]"
  "strip ucd_cjk (str_lower ucd_cjk hatch_example) = hatch_example"
  by (simp_all add: eval_defs hatch_example_def)

text \<open>
  C2 (the command U+4FDD U+5B58, "save", gives the save descriptor with the default
  path \<^verbatim>\<open>out/drawing.dwg\<close>). The code does not: on the constructed object the call
  raises \<^verbatim>\<open>AttributeError\<close>; and were the attribute present, the rules classify the
  text as \<^verbatim>\<open>save\<close> and the dispatcher calls \<^verbatim>\<open>_parse_save\<close>, whose body is the wall builder,
  which returns the error of line 722 ("drawing a wall needs start and end points").
\<close>

theorem save_command_gives_wall_error:
  "parse_command ucd_cjk example_config init [0x4FDD, 0x5B58] = Inl AttributeError
   \<and> classify init [0x4FDD, 0x5B58] = ''save''
   \<and> parse_command ucd_cjk example_config with_domains [0x4FDD, 0x5B58]
       = Inr (Error [0x7ED8, 0x5236, 0x5899, 0x4F53, 0x9700, 0x8981, 0x63D0, 0x4F9B, 0x8D77,
                     0x70B9, 0x548C, 0x7EC8, 0x70B9, 0x5750, 0x6807])"
proof -
  have c: "classify init [0x4FDD, 0x5B58] = ''save''"
    by (simp add: classify_def init_def)
  have b: "parse_save ucd_cjk [0x4FDD, 0x5B58]
       = Inr (Error [0x7ED8, 0x5236, 0x5899, 0x4F53, 0x9700, 0x8981, 0x63D0, 0x4F9B, 0x8D77,
                     0x70B9, 0x548C, 0x7EC8, 0x70B9, 0x5750, 0x6807])"
    by (simp add: parse_save_def pattern_defs eval_defs)
  have "parse_command ucd_cjk example_config with_domains [0x4FDD, 0x5B58]
       = dispatch ucd_cjk example_config ''save'' [0x4FDD, 0x5B58]"
    unfolding parse_command_def Let_def normalize_cjk with_domains_identify c
    by (simp add: bindE_def)
  with b c show ?thesis
    by (simp add: dispatch_def parse_command_def identify_command_type_def
        init_domain_keywords bindE_def)
qed

text \<open>
  C3 (the builder dispatched for \<^verbatim>\<open>create_layer\<close> returns a \<^verbatim>\<open>create_layer\<close> descriptor
  with a layer name and a color). The code does not: the dispatcher calls
  \<^verbatim>\<open>_parse_create_layer\<close>, whose body is the save builder, and for every command text the
  result is a \<^verbatim>\<open>save\<close> descriptor with a file path; no layer name and no color is read.
\<close>

theorem create_layer_builder_saves:
  "\<exists>file_path. dispatch U cfg ''create_layer'' command = Inr (Save file_path)
               \<and> type_of (Save file_path) = ''save''"
  by (simp add: dispatch_def parse_create_layer_def split: option.split)

text \<open>
  The command U+521B U+5EFA U+56FE U+5C42 (create layer), a name cue with the quoted name
  \<^verbatim>\<open>'a'\<close>, and the color U+7EA2 U+8272 (red): classified \<^verbatim>\<open>create_layer\<close>, built as a save
  to the default path.
\<close>

lemma create_layer_example:
  "classify init [0x521B, 0x5EFA, 0x56FE, 0x5C42, 0x20, 0x540D, 0x79F0, 0x27, 0x61, 0x27, 0x20,
                  0x7EA2, 0x8272] = ''create_layer''"
  "parse_create_layer ucd_cjk example_config
     [0x521B, 0x5EFA, 0x56FE, 0x5C42, 0x20, 0x540D, 0x79F0, 0x27, 0x61, 0x27, 0x20, 0x7EA2, 0x8272]
   = Inr (Save (Some (ascii ''out/drawing.dwg'')))"
  by (simp_all add: classify_def init_def parse_create_layer_def pattern_defs eval_defs
      example_config_def path_join_def)

text \<open>
  C4 (the command \<open>hatch_example\<close>, U+753B U+586B U+5145 followed by
  \<^verbatim>\<open> (0,0) (10,0) (10,10)\<close>, gives the hatch descriptor). The code does not: on the
  constructed object the call raises \<^verbatim>\<open>AttributeError\<close>; and were the attribute present,
  the rules classify the text as \<^verbatim>\<open>unknown\<close> (no rule gives \<^verbatim>\<open>draw_hatch\<close>), so the
  result is the unknown descriptor. The hatch builder itself, called on the text,
  returns the descriptor of the claim.
\<close>

theorem hatch_command_is_unknown:
  "parse_command ucd_cjk example_config init hatch_example = Inl AttributeError
   \<and> classify init hatch_example = ''unknown''
   \<and> parse_command ucd_cjk example_config with_domains hatch_example
       = Inr (Unknown [0x65E0, 0x6CD5, 0x8BC6, 0x522B, 0x7684, 0x547D, 0x4EE4, 0x7C7B, 0x578B]
                hatch_example)
   \<and> parse_draw_hatch ucd_cjk hatch_example
       = Inr (DrawHatch [(0, 0, 0), (10, 0, 0), (10, 10, 0)] (ascii ''SOLID'') 1)"
proof -
  have c: "classify init hatch_example = ''unknown''"
    by (simp add: classify_def init_def hatch_example_def)
  have "parse_command ucd_cjk example_config with_domains hatch_example
       = dispatch ucd_cjk example_config ''unknown'' hatch_example"
    unfolding parse_command_def Let_def normalize_cjk with_domains_identify c
    by (simp add: bindE_def)
  with c hatch_example_builder show ?thesis
    by (simp add: dispatch_def parse_command_def identify_command_type_def
        init_domain_keywords bindE_def)
qed

text \<open>No command text is classified \<^verbatim>\<open>draw_hatch\<close> or \<^verbatim>\<open>draw_wall\<close>.\<close>

lemma classify_never_hatch:
  "classify self command \<noteq> ''draw_hatch'' \<and> classify self command \<noteq> ''draw_wall''"
  using classify_range[of self command] by auto

text \<open>
  C9 (the near-duplicate color names are ordered longest first, so the longer name
  wins). The code does not: the table lists the shorter names first, and the scan
  returns at the first name that occurs. U+6D0B U+7EA2 U+8272 (magenta, 6) resolves to 1
  (red), U+6D45 U+7070 U+8272 (light gray, 9) to 8 (gray), and \<^verbatim>\<open>Light Gray\<close> to 8.
\<close>

theorem longer_color_name_loses:
  "extract_color_from_command ucd_cjk init (Some [0x6D0B, 0x7EA2, 0x8272]) = 1
   \<and> map_of (color_rgb_map init) [0x6D0B, 0x7EA2, 0x8272] = Some 6
   \<and> extract_color_from_command ucd_cjk init (Some [0x6D45, 0x7070, 0x8272]) = 8
   \<and> map_of (color_rgb_map init) [0x6D45, 0x7070, 0x8272] = Some 9
   \<and> extract_color_from_command ucd_cjk init (Some (ascii ''Light Gray'')) = 8
   \<and> map_of (color_rgb_map init) (ascii ''Light Gray'') = Some 9"
  by (simp add: extract_color_from_command_def py_int_def init_def pattern_defs eval_defs)



text \<open>
  The texts for which the rules give \<^verbatim>\<open>add_dimension\<close> through the special phrase: those
  that contain U+6807 U+6CE8, for which the two loops return nothing and which are not a
  layer creation.
\<close>

lemma classify_dimension_phrase:
  assumes "contains [0x6807, 0x6CE8] command"
    and "action_loop (shape_keywords self) command (action_keywords self) = None"
    and "\<not> (contains [0x56FE, 0x5C42] command
            \<and> list_ex (\<lambda>action. contains action command)
                 [[0x521B, 0x5EFA], [0x65B0, 0x5EFA], [0x6DFB, 0x52A0]])"
  shows "classify self command = ''add_dimension''"
  using assms by (simp add: classify_def)

section \<open>No other exception\<close>

text \<open>
  Every match that \<^verbatim>\<open>finditer\<close> or \<^verbatim>\<open>findall\<close> yields is a match in the declarative
  sense, so every text passed to \<^verbatim>\<open>float\<close> is a number literal and every group read is
  assigned: provided the minus sign and the full stop are not decimal digits, no
  extractor and no builder raises, and on a processor that has the attribute
  \<^verbatim>\<open>domain_keywords\<close> \<^verbatim>\<open>parse_command\<close> returns a descriptor for every command. The
  missing attribute is the one reason why it raises on the constructed processor.
\<close>

lemma finditer_from_sem:
  "m \<in> set (finditer_from r off s) \<Longrightarrow> \<exists>w. sem r Map.empty w (m_groups m)"
proof (induction "length s" arbitrary: s off rule: less_induct)
  case less
  show ?case
  proof (cases "search_at r s")
    case None
    with less.prems show ?thesis by (subst (asm) finditer_from.simps) simp
  next
    case (Some x)
    then obtain n s' g where found: "search_at r s = Some (n, s', g)" by (cases x) auto
    from search_at_sound[OF found] rm_sound obtain w where sem: "sem r Map.empty w g" by blast
    from search_at_length[OF found] have len: "n + length s' \<le> length s" .
    let ?e = "off + (length s - length s')"
    from less.prems found consider
      (head) "m = \<lparr>m_start = off + n, m_end = ?e, m_groups = g\<rparr>"
      | (advance) "n < length s - length s'" "m \<in> set (finditer_from r ?e s')"
      | (skip) c t where "s' = c # t" "m \<in> set (finditer_from r (Suc ?e) t)"
      by (subst (asm) finditer_from.simps) (auto split: if_splits list.splits)
    then show ?thesis
    proof cases
      case head
      with sem show ?thesis by auto
    next
      case advance
      then have "length s' < length s" by simp
      from less.hyps[OF this advance(2)] show ?thesis .
    next
      case skip
      with len have "length t < length s" by simp
      from less.hyps[OF this skip(2)] show ?thesis .
    qed
  qed
qed

lemma collect_total:
  "(\<And>x. x \<in> set xs \<Longrightarrow> \<exists>y. f x = Inr y) \<Longrightarrow> \<exists>ys. collect f xs = Inr ys"
proof (induction xs)
  case Nil
  then show ?case by simp
next
  case (Cons x xs)
  from Cons.prems[of x] obtain y where "f x = Inr y" by auto
  moreover from Cons obtain ys where "collect f xs = Inr ys" by auto
  ultimately show ?case by (simp add: bindE_def)
qed

lemma extract_numbers_total:
  assumes U: "ucd_signs U"
  shows "\<exists>numbers. extract_numbers U txt = Inr numbers"
  unfolding extract_numbers_def
proof (rule collect_total)
  fix t assume "t \<in> set (findall (Grp 1 (number U)) txt)"
  then obtain m where m: "m \<in> set (finditer_from (Grp 1 (number U)) 0 txt)"
    and t: "t = (case m_groups m 1 of None \<Rightarrow> [] | Some u \<Rightarrow> u)"
    by (auto simp: findall_def finditer_def)
  from finditer_from_sem[OF m] obtain w where "sem (Grp 1 (number U)) Map.empty w (m_groups m)"
    by blast
  from sem_grp_number[OF U this] t obtain v where "py_float U t = Some v" by auto
  then show "\<exists>y. float_of U t = Inr y" by (simp add: float_of_def)
qed

lemma radius_of_total:
  assumes U: "ucd_signs U"
  shows "\<exists>radius. radius_of U command numbers = Inr radius"
proof -
  from search_float_labelled[OF U, of "number U"] obtain v where
    "search_float U (radius_pattern U) command = Inr v"
    by (auto simp: radius_pattern_def)
  then show ?thesis by (cases v) (auto simp: radius_of_def bindE_def)
qed

lemma builders_total:
  assumes U: "ucd_signs U"
  shows "\<exists>d. parse_draw_line U command = Inr d"
    and "\<exists>d. parse_draw_circle U command = Inr d"
    and "\<exists>d. parse_draw_arc U command = Inr d"
    and "\<exists>d. parse_draw_rectangle U command = Inr d"
    and "\<exists>d. parse_draw_polyline U command = Inr d"
    and "\<exists>d. parse_draw_text U command = Inr d"
    and "\<exists>d. parse_draw_hatch U command = Inr d"
    and "\<exists>d. parse_save U command = Inr d"
    and "\<exists>d. parse_create_layer U cfg command = Inr d"
proof -
  from extract_coordinates_reads[OF U] obtain cs where
    cs: "extract_coordinates U command = Inr cs" by blast
  from extract_numbers_total[OF U] obtain ns where ns: "extract_numbers U command = Inr ns"
    by blast
  from radius_of_total[OF U] obtain r where r: "radius_of U command ns = Inr r" by blast
  have lab: "\<And>labels. \<exists>v. search_float U (labelled U labels (number U)) command = Inr v"
    "\<And>labels. \<exists>v. search_float U (labelled U labels (unsigned_number U)) command = Inr v"
    using search_float_labelled[OF U] by blast+
  from lab(1) obtain sa where sa: "search_float U (start_angle_pattern U) command = Inr sa"
    unfolding start_angle_pattern_def by blast
  from lab(1) obtain ea where ea: "search_float U (end_angle_pattern U) command = Inr ea"
    unfolding end_angle_pattern_def by blast
  from lab(1) obtain wi where wi: "search_float U (width_pattern U) command = Inr wi"
    unfolding width_pattern_def by blast
  from lab(1) obtain he where he: "search_float U (height_pattern U) command = Inr he"
    unfolding height_pattern_def by blast
  from lab(1) obtain ro where ro: "search_float U (rotation_pattern U) command = Inr ro"
    unfolding rotation_pattern_def by blast
  from lab(2) obtain sc where sc: "search_float U (scale_pattern U) command = Inr sc"
    unfolding scale_pattern_def by blast
  from lab(2) obtain ww where ww: "search_float U (wall_width_pattern U) command = Inr ww"
    unfolding wall_width_pattern_def by blast
  from pattern_name_of_total[of "pattern_patterns U" U command "ascii ''SOLID''"] obtain name where
    name: "pattern_name_of U command (ascii ''SOLID'') (pattern_patterns U) = Inr name" by auto
  show "\<exists>d. parse_draw_line U command = Inr d"
    using cs by (simp add: parse_draw_line_def bindE_def)
  show "\<exists>d. parse_draw_circle U command = Inr d"
    using cs ns r by (simp add: parse_draw_circle_def bindE_def)
  show "\<exists>d. parse_draw_arc U command = Inr d"
    using cs ns r sa ea by (simp add: parse_draw_arc_def bindE_def)
  show "\<exists>d. parse_draw_rectangle U command = Inr d"
    using cs wi he by (simp add: parse_draw_rectangle_def bindE_def Let_def split: prod.split)
  show "\<exists>d. parse_draw_polyline U command = Inr d"
    using cs by (simp add: parse_draw_polyline_def bindE_def Let_def)
  show "\<exists>d. parse_draw_text U command = Inr d"
    using cs he ro by (simp add: parse_draw_text_def bindE_def Let_def)
  show "\<exists>d. parse_draw_hatch U command = Inr d"
    using cs name sc by (simp add: parse_draw_hatch_def bindE_def Let_def)
  show "\<exists>d. parse_save U command = Inr d"
    using cs ww by (simp add: parse_save_def bindE_def Let_def)
  show "\<exists>d. parse_create_layer U cfg command = Inr d"
    by (simp add: parse_create_layer_def split: option.split)
qed

lemma dispatch_total:
  assumes "ucd_signs U" and "command_type \<noteq> ''draw_wall''"
  shows "\<exists>d. dispatch U cfg command_type command = Inr d"
  using builders_total[OF assms(1)] assms(2)
  by (simp add: dispatch_def)

lemma parse_command_with_attribute:
  assumes "ucd_signs U" and "domain_keywords self = Some table"
  shows "\<exists>d. parse_command U cfg self command = Inr d"
proof -
  let ?c = "strip U (str_lower U command)"
  from classify_never_hatch[of self ?c] have "classify self ?c \<noteq> ''draw_wall''" by simp
  from dispatch_total[OF assms(1) this] assms(2) show ?thesis
    by (simp add: parse_command_def identify_command_type_def bindE_def Let_def)
qed

end
